theory Spec2Isabelle
  imports Main "HOL-Library.Char_ord" "HOL-Library.List_Lexorder" "HOL-Library.Multiset"
begin

section \<open>Unicode data\<close>

text \<open>
  A Python \<open>str\<close> is a sequence of Unicode code points; the model is a list of natural
  numbers, \<open>u ''abc''\<close> being the \<open>str\<close> of the ASCII characters \<open>abc\<close>. The tables below
  are the character data of CPython 3.11 (Unicode 14.0.0) that the methods of \<open>str\<close>, the
  classes \<open>\s\<close> and \<open>\d\<close> of \<open>re\<close>, and \<open>int\<close> and \<open>float\<close> read.
\<close>

type_synonym ustr = "nat list"

definition u :: "string \<Rightarrow> ustr" where
  "u s = map of_char s"

text \<open>A table of ranges \<open>(lo, hi)\<close>, both ends included.\<close>

definition in_ranges :: "(nat \<times> nat) list \<Rightarrow> nat \<Rightarrow> bool" where
  "in_ranges rs c = list_ex (\<lambda>(lo, hi). lo \<le> c \<and> c \<le> hi) rs"

text \<open>
  The whitespace characters: those of \<open>str.isspace\<close>, which \<open>str.strip\<close> removes and \<open>\s\<close>
  matches.
\<close>

definition space_points :: "nat list" where
  "space_points =
     [9, 10, 11, 12, 13, 28, 29, 30, 31, 32,
     133, 160, 5760, 8192, 8193, 8194, 8195, 8196, 8197, 8198,
     8199, 8200, 8201, 8202, 8232, 8233, 8239, 8287, 12288]"

text \<open>
  The decimal digits, which \<open>\d\<close> matches: they come in blocks of ten, from the digit zero
  to the digit nine. The table lists the code point of the zero of each block.
\<close>

definition digit_zeros :: "nat list" where
  "digit_zeros =
     [48, 1632, 1776, 1984, 2406, 2534, 2662, 2790,
     2918, 3046, 3174, 3302, 3430, 3558, 3664, 3792,
     3872, 4160, 4240, 6112, 6160, 6470, 6608, 6784,
     6800, 6992, 7088, 7232, 7248, 42528, 43216, 43264,
     43472, 43504, 43600, 44016, 65296, 66720, 68912, 69734,
     69872, 69942, 70096, 70384, 70736, 70864, 71248, 71360,
     71472, 71904, 72016, 72784, 73040, 73120, 92768, 92864,
     93008, 120782, 120792, 120802, 120812, 120822, 123200, 123632,
     125264, 130032]"

text \<open>The characters of \<open>str.isdigit\<close>: the decimal digits and, among others, the superscripts.\<close>

definition isdigit_ranges :: "(nat \<times> nat) list" where
  "isdigit_ranges =
     [(48, 57), (178, 179), (185, 185), (1632, 1641), (1776, 1785),
     (1984, 1993), (2406, 2415), (2534, 2543), (2662, 2671), (2790, 2799),
     (2918, 2927), (3046, 3055), (3174, 3183), (3302, 3311), (3430, 3439),
     (3558, 3567), (3664, 3673), (3792, 3801), (3872, 3881), (4160, 4169),
     (4240, 4249), (4969, 4977), (6112, 6121), (6160, 6169), (6470, 6479),
     (6608, 6618), (6784, 6793), (6800, 6809), (6992, 7001), (7088, 7097),
     (7232, 7241), (7248, 7257), (8304, 8304), (8308, 8313), (8320, 8329),
     (9312, 9320), (9332, 9340), (9352, 9360), (9450, 9450), (9461, 9469),
     (9471, 9471), (10102, 10110), (10112, 10120), (10122, 10130), (42528, 42537),
     (43216, 43225), (43264, 43273), (43472, 43481), (43504, 43513), (43600, 43609),
     (44016, 44025), (65296, 65305), (66720, 66729), (68160, 68163), (68912, 68921),
     (69216, 69224), (69714, 69722), (69734, 69743), (69872, 69881), (69942, 69951),
     (70096, 70105), (70384, 70393), (70736, 70745), (70864, 70873), (71248, 71257),
     (71360, 71369), (71472, 71481), (71904, 71913), (72016, 72025), (72784, 72793),
     (73040, 73049), (73120, 73129), (92768, 92777), (92864, 92873), (93008, 93017),
     (120782, 120831), (123200, 123209), (123632, 123641), (125264, 125273), (127232, 127242),
     (130032, 130041)]"

text \<open>
  The case mappings of single characters. An entry \<open>(lo, hi, step, t)\<close> maps the code
  points \<open>lo\<close>, \<open>lo + step\<close>, ... up to \<open>hi\<close> to \<open>t\<close>, \<open>t + step\<close>, ...; the characters with
  a mapping to zero or several characters are listed by themselves; every other character
  is mapped to itself.
\<close>

definition lower_ranges :: "(nat \<times> nat \<times> nat \<times> nat) list" where
  "lower_ranges =
     [(65, 90, 1, 97), (192, 214, 1, 224), (216, 222, 1, 248),
     (256, 302, 2, 257), (306, 310, 2, 307), (313, 327, 2, 314),
     (330, 374, 2, 331), (376, 376, 1, 255), (377, 381, 2, 378),
     (385, 385, 1, 595), (386, 388, 2, 387), (390, 390, 1, 596),
     (391, 391, 1, 392), (393, 394, 1, 598), (395, 395, 1, 396),
     (398, 398, 1, 477), (399, 399, 1, 601), (400, 400, 1, 603),
     (401, 401, 1, 402), (403, 403, 1, 608), (404, 404, 1, 611),
     (406, 406, 1, 617), (407, 407, 1, 616), (408, 408, 1, 409),
     (412, 412, 1, 623), (413, 413, 1, 626), (415, 415, 1, 629),
     (416, 420, 2, 417), (422, 422, 1, 640), (423, 423, 1, 424),
     (425, 425, 1, 643), (428, 428, 1, 429), (430, 430, 1, 648),
     (431, 431, 1, 432), (433, 434, 1, 650), (435, 437, 2, 436),
     (439, 439, 1, 658), (440, 440, 1, 441), (444, 444, 1, 445),
     (452, 452, 1, 454), (453, 453, 1, 454), (455, 455, 1, 457),
     (456, 456, 1, 457), (458, 458, 1, 460), (459, 475, 2, 460),
     (478, 494, 2, 479), (497, 497, 1, 499), (498, 500, 2, 499),
     (502, 502, 1, 405), (503, 503, 1, 447), (504, 542, 2, 505),
     (544, 544, 1, 414), (546, 562, 2, 547), (570, 570, 1, 11365),
     (571, 571, 1, 572), (573, 573, 1, 410), (574, 574, 1, 11366),
     (577, 577, 1, 578), (579, 579, 1, 384), (580, 580, 1, 649),
     (581, 581, 1, 652), (582, 590, 2, 583), (880, 882, 2, 881),
     (886, 886, 1, 887), (895, 895, 1, 1011), (902, 902, 1, 940),
     (904, 906, 1, 941), (908, 908, 1, 972), (910, 911, 1, 973),
     (913, 929, 1, 945), (931, 939, 1, 963), (975, 975, 1, 983),
     (984, 1006, 2, 985), (1012, 1012, 1, 952), (1015, 1015, 1, 1016),
     (1017, 1017, 1, 1010), (1018, 1018, 1, 1019), (1021, 1023, 1, 891),
     (1024, 1039, 1, 1104), (1040, 1071, 1, 1072), (1120, 1152, 2, 1121),
     (1162, 1214, 2, 1163), (1216, 1216, 1, 1231), (1217, 1229, 2, 1218),
     (1232, 1326, 2, 1233), (1329, 1366, 1, 1377), (4256, 4293, 1, 11520),
     (4295, 4295, 1, 11559), (4301, 4301, 1, 11565), (5024, 5103, 1, 43888),
     (5104, 5109, 1, 5112), (7312, 7354, 1, 4304), (7357, 7359, 1, 4349),
     (7680, 7828, 2, 7681), (7838, 7838, 1, 223), (7840, 7934, 2, 7841),
     (7944, 7951, 1, 7936), (7960, 7965, 1, 7952), (7976, 7983, 1, 7968),
     (7992, 7999, 1, 7984), (8008, 8013, 1, 8000), (8025, 8031, 2, 8017),
     (8040, 8047, 1, 8032), (8072, 8079, 1, 8064), (8088, 8095, 1, 8080),
     (8104, 8111, 1, 8096), (8120, 8121, 1, 8112), (8122, 8123, 1, 8048),
     (8124, 8124, 1, 8115), (8136, 8139, 1, 8050), (8140, 8140, 1, 8131),
     (8152, 8153, 1, 8144), (8154, 8155, 1, 8054), (8168, 8169, 1, 8160),
     (8170, 8171, 1, 8058), (8172, 8172, 1, 8165), (8184, 8185, 1, 8056),
     (8186, 8187, 1, 8060), (8188, 8188, 1, 8179), (8486, 8486, 1, 969),
     (8490, 8490, 1, 107), (8491, 8491, 1, 229), (8498, 8498, 1, 8526),
     (8544, 8559, 1, 8560), (8579, 8579, 1, 8580), (9398, 9423, 1, 9424),
     (11264, 11311, 1, 11312), (11360, 11360, 1, 11361), (11362, 11362, 1, 619),
     (11363, 11363, 1, 7549), (11364, 11364, 1, 637), (11367, 11371, 2, 11368),
     (11373, 11373, 1, 593), (11374, 11374, 1, 625), (11375, 11375, 1, 592),
     (11376, 11376, 1, 594), (11378, 11378, 1, 11379), (11381, 11381, 1, 11382),
     (11390, 11391, 1, 575), (11392, 11490, 2, 11393), (11499, 11501, 2, 11500),
     (11506, 11506, 1, 11507), (42560, 42604, 2, 42561), (42624, 42650, 2, 42625),
     (42786, 42798, 2, 42787), (42802, 42862, 2, 42803), (42873, 42875, 2, 42874),
     (42877, 42877, 1, 7545), (42878, 42886, 2, 42879), (42891, 42891, 1, 42892),
     (42893, 42893, 1, 613), (42896, 42898, 2, 42897), (42902, 42920, 2, 42903),
     (42922, 42922, 1, 614), (42923, 42923, 1, 604), (42924, 42924, 1, 609),
     (42925, 42925, 1, 620), (42926, 42926, 1, 618), (42928, 42928, 1, 670),
     (42929, 42929, 1, 647), (42930, 42930, 1, 669), (42931, 42931, 1, 43859),
     (42932, 42946, 2, 42933), (42948, 42948, 1, 42900), (42949, 42949, 1, 642),
     (42950, 42950, 1, 7566), (42951, 42953, 2, 42952), (42960, 42960, 1, 42961),
     (42966, 42968, 2, 42967), (42997, 42997, 1, 42998), (65313, 65338, 1, 65345),
     (66560, 66599, 1, 66600), (66736, 66771, 1, 66776), (66928, 66938, 1, 66967),
     (66940, 66954, 1, 66979), (66956, 66962, 1, 66995), (66964, 66965, 1, 67003),
     (68736, 68786, 1, 68800), (71840, 71871, 1, 71872), (93760, 93791, 1, 93792),
     (125184, 125217, 1, 125218)]"

definition lower_special :: "(nat \<times> nat list) list" where
  "lower_special =
     [(304, [105, 775])]"

definition upper_ranges :: "(nat \<times> nat \<times> nat \<times> nat) list" where
  "upper_ranges =
     [(97, 122, 1, 65), (181, 181, 1, 924), (224, 246, 1, 192),
     (248, 254, 1, 216), (255, 255, 1, 376), (257, 303, 2, 256),
     (305, 305, 1, 73), (307, 311, 2, 306), (314, 328, 2, 313),
     (331, 375, 2, 330), (378, 382, 2, 377), (383, 383, 1, 83),
     (384, 384, 1, 579), (387, 389, 2, 386), (392, 392, 1, 391),
     (396, 396, 1, 395), (402, 402, 1, 401), (405, 405, 1, 502),
     (409, 409, 1, 408), (410, 410, 1, 573), (414, 414, 1, 544),
     (417, 421, 2, 416), (424, 424, 1, 423), (429, 429, 1, 428),
     (432, 432, 1, 431), (436, 438, 2, 435), (441, 441, 1, 440),
     (445, 445, 1, 444), (447, 447, 1, 503), (453, 453, 1, 452),
     (454, 454, 1, 452), (456, 456, 1, 455), (457, 457, 1, 455),
     (459, 459, 1, 458), (460, 460, 1, 458), (462, 476, 2, 461),
     (477, 477, 1, 398), (479, 495, 2, 478), (498, 498, 1, 497),
     (499, 499, 1, 497), (501, 501, 1, 500), (505, 543, 2, 504),
     (547, 563, 2, 546), (572, 572, 1, 571), (575, 576, 1, 11390),
     (578, 578, 1, 577), (583, 591, 2, 582), (592, 592, 1, 11375),
     (593, 593, 1, 11373), (594, 594, 1, 11376), (595, 595, 1, 385),
     (596, 596, 1, 390), (598, 599, 1, 393), (601, 601, 1, 399),
     (603, 603, 1, 400), (604, 604, 1, 42923), (608, 608, 1, 403),
     (609, 609, 1, 42924), (611, 611, 1, 404), (613, 613, 1, 42893),
     (614, 614, 1, 42922), (616, 616, 1, 407), (617, 617, 1, 406),
     (618, 618, 1, 42926), (619, 619, 1, 11362), (620, 620, 1, 42925),
     (623, 623, 1, 412), (625, 625, 1, 11374), (626, 626, 1, 413),
     (629, 629, 1, 415), (637, 637, 1, 11364), (640, 640, 1, 422),
     (642, 642, 1, 42949), (643, 643, 1, 425), (647, 647, 1, 42929),
     (648, 648, 1, 430), (649, 649, 1, 580), (650, 651, 1, 433),
     (652, 652, 1, 581), (658, 658, 1, 439), (669, 669, 1, 42930),
     (670, 670, 1, 42928), (837, 837, 1, 921), (881, 883, 2, 880),
     (887, 887, 1, 886), (891, 893, 1, 1021), (940, 940, 1, 902),
     (941, 943, 1, 904), (945, 961, 1, 913), (962, 962, 1, 931),
     (963, 971, 1, 931), (972, 972, 1, 908), (973, 974, 1, 910),
     (976, 976, 1, 914), (977, 977, 1, 920), (981, 981, 1, 934),
     (982, 982, 1, 928), (983, 983, 1, 975), (985, 1007, 2, 984),
     (1008, 1008, 1, 922), (1009, 1009, 1, 929), (1010, 1010, 1, 1017),
     (1011, 1011, 1, 895), (1013, 1013, 1, 917), (1016, 1016, 1, 1015),
     (1019, 1019, 1, 1018), (1072, 1103, 1, 1040), (1104, 1119, 1, 1024),
     (1121, 1153, 2, 1120), (1163, 1215, 2, 1162), (1218, 1230, 2, 1217),
     (1231, 1231, 1, 1216), (1233, 1327, 2, 1232), (1377, 1414, 1, 1329),
     (4304, 4346, 1, 7312), (4349, 4351, 1, 7357), (5112, 5117, 1, 5104),
     (7296, 7296, 1, 1042), (7297, 7297, 1, 1044), (7298, 7298, 1, 1054),
     (7299, 7300, 1, 1057), (7301, 7301, 1, 1058), (7302, 7302, 1, 1066),
     (7303, 7303, 1, 1122), (7304, 7304, 1, 42570), (7545, 7545, 1, 42877),
     (7549, 7549, 1, 11363), (7566, 7566, 1, 42950), (7681, 7829, 2, 7680),
     (7835, 7835, 1, 7776), (7841, 7935, 2, 7840), (7936, 7943, 1, 7944),
     (7952, 7957, 1, 7960), (7968, 7975, 1, 7976), (7984, 7991, 1, 7992),
     (8000, 8005, 1, 8008), (8017, 8023, 2, 8025), (8032, 8039, 1, 8040),
     (8048, 8049, 1, 8122), (8050, 8053, 1, 8136), (8054, 8055, 1, 8154),
     (8056, 8057, 1, 8184), (8058, 8059, 1, 8170), (8060, 8061, 1, 8186),
     (8112, 8113, 1, 8120), (8126, 8126, 1, 921), (8144, 8145, 1, 8152),
     (8160, 8161, 1, 8168), (8165, 8165, 1, 8172), (8526, 8526, 1, 8498),
     (8560, 8575, 1, 8544), (8580, 8580, 1, 8579), (9424, 9449, 1, 9398),
     (11312, 11359, 1, 11264), (11361, 11361, 1, 11360), (11365, 11365, 1, 570),
     (11366, 11366, 1, 574), (11368, 11372, 2, 11367), (11379, 11379, 1, 11378),
     (11382, 11382, 1, 11381), (11393, 11491, 2, 11392), (11500, 11502, 2, 11499),
     (11507, 11507, 1, 11506), (11520, 11557, 1, 4256), (11559, 11559, 1, 4295),
     (11565, 11565, 1, 4301), (42561, 42605, 2, 42560), (42625, 42651, 2, 42624),
     (42787, 42799, 2, 42786), (42803, 42863, 2, 42802), (42874, 42876, 2, 42873),
     (42879, 42887, 2, 42878), (42892, 42892, 1, 42891), (42897, 42899, 2, 42896),
     (42900, 42900, 1, 42948), (42903, 42921, 2, 42902), (42933, 42947, 2, 42932),
     (42952, 42954, 2, 42951), (42961, 42961, 1, 42960), (42967, 42969, 2, 42966),
     (42998, 42998, 1, 42997), (43859, 43859, 1, 42931), (43888, 43967, 1, 5024),
     (65345, 65370, 1, 65313), (66600, 66639, 1, 66560), (66776, 66811, 1, 66736),
     (66967, 66977, 1, 66928), (66979, 66993, 1, 66940), (66995, 67001, 1, 66956),
     (67003, 67004, 1, 66964), (68800, 68850, 1, 68736), (71872, 71903, 1, 71840),
     (93792, 93823, 1, 93760), (125218, 125251, 1, 125184)]"

definition upper_special :: "(nat \<times> nat list) list" where
  "upper_special =
     [(223, [83, 83]), (329, [700, 78]), (496, [74, 780]),
     (912, [921, 776, 769]), (944, [933, 776, 769]), (1415, [1333, 1362]),
     (7830, [72, 817]), (7831, [84, 776]), (7832, [87, 778]),
     (7833, [89, 778]), (7834, [65, 702]), (8016, [933, 787]),
     (8018, [933, 787, 768]), (8020, [933, 787, 769]), (8022, [933, 787, 834]),
     (8064, [7944, 921]), (8065, [7945, 921]), (8066, [7946, 921]),
     (8067, [7947, 921]), (8068, [7948, 921]), (8069, [7949, 921]),
     (8070, [7950, 921]), (8071, [7951, 921]), (8072, [7944, 921]),
     (8073, [7945, 921]), (8074, [7946, 921]), (8075, [7947, 921]),
     (8076, [7948, 921]), (8077, [7949, 921]), (8078, [7950, 921]),
     (8079, [7951, 921]), (8080, [7976, 921]), (8081, [7977, 921]),
     (8082, [7978, 921]), (8083, [7979, 921]), (8084, [7980, 921]),
     (8085, [7981, 921]), (8086, [7982, 921]), (8087, [7983, 921]),
     (8088, [7976, 921]), (8089, [7977, 921]), (8090, [7978, 921]),
     (8091, [7979, 921]), (8092, [7980, 921]), (8093, [7981, 921]),
     (8094, [7982, 921]), (8095, [7983, 921]), (8096, [8040, 921]),
     (8097, [8041, 921]), (8098, [8042, 921]), (8099, [8043, 921]),
     (8100, [8044, 921]), (8101, [8045, 921]), (8102, [8046, 921]),
     (8103, [8047, 921]), (8104, [8040, 921]), (8105, [8041, 921]),
     (8106, [8042, 921]), (8107, [8043, 921]), (8108, [8044, 921]),
     (8109, [8045, 921]), (8110, [8046, 921]), (8111, [8047, 921]),
     (8114, [8122, 921]), (8115, [913, 921]), (8116, [902, 921]),
     (8118, [913, 834]), (8119, [913, 834, 921]), (8124, [913, 921]),
     (8130, [8138, 921]), (8131, [919, 921]), (8132, [905, 921]),
     (8134, [919, 834]), (8135, [919, 834, 921]), (8140, [919, 921]),
     (8146, [921, 776, 768]), (8147, [921, 776, 769]), (8150, [921, 834]),
     (8151, [921, 776, 834]), (8162, [933, 776, 768]), (8163, [933, 776, 769]),
     (8164, [929, 787]), (8166, [933, 834]), (8167, [933, 776, 834]),
     (8178, [8186, 921]), (8179, [937, 921]), (8180, [911, 921]),
     (8182, [937, 834]), (8183, [937, 834, 921]), (8188, [937, 921]),
     (64256, [70, 70]), (64257, [70, 73]), (64258, [70, 76]),
     (64259, [70, 70, 73]), (64260, [70, 70, 76]), (64261, [83, 84]),
     (64262, [83, 84]), (64275, [1348, 1350]), (64276, [1348, 1333]),
     (64277, [1348, 1339]), (64278, [1358, 1350]), (64279, [1348, 1341])]"

text \<open>
  The two classes that decide how \<open>str.lower\<close> maps a capital sigma: the case-ignorable
  characters, and the cased characters that are not case-ignorable.
\<close>

definition case_ignorable_ranges :: "(nat \<times> nat) list" where
  "case_ignorable_ranges =
     [(39, 39), (46, 46), (58, 58), (94, 94), (96, 96),
     (168, 168), (173, 173), (175, 175), (180, 180), (183, 184),
     (688, 879), (884, 885), (890, 890), (900, 901), (903, 903),
     (1155, 1161), (1369, 1369), (1375, 1375), (1425, 1469), (1471, 1471),
     (1473, 1474), (1476, 1477), (1479, 1479), (1524, 1524), (1536, 1541),
     (1552, 1562), (1564, 1564), (1600, 1600), (1611, 1631), (1648, 1648),
     (1750, 1757), (1759, 1768), (1770, 1773), (1807, 1807), (1809, 1809),
     (1840, 1866), (1958, 1968), (2027, 2037), (2042, 2042), (2045, 2045),
     (2070, 2093), (2137, 2139), (2184, 2184), (2192, 2193), (2200, 2207),
     (2249, 2306), (2362, 2362), (2364, 2364), (2369, 2376), (2381, 2381),
     (2385, 2391), (2402, 2403), (2417, 2417), (2433, 2433), (2492, 2492),
     (2497, 2500), (2509, 2509), (2530, 2531), (2558, 2558), (2561, 2562),
     (2620, 2620), (2625, 2626), (2631, 2632), (2635, 2637), (2641, 2641),
     (2672, 2673), (2677, 2677), (2689, 2690), (2748, 2748), (2753, 2757),
     (2759, 2760), (2765, 2765), (2786, 2787), (2810, 2815), (2817, 2817),
     (2876, 2876), (2879, 2879), (2881, 2884), (2893, 2893), (2901, 2902),
     (2914, 2915), (2946, 2946), (3008, 3008), (3021, 3021), (3072, 3072),
     (3076, 3076), (3132, 3132), (3134, 3136), (3142, 3144), (3146, 3149),
     (3157, 3158), (3170, 3171), (3201, 3201), (3260, 3260), (3263, 3263),
     (3270, 3270), (3276, 3277), (3298, 3299), (3328, 3329), (3387, 3388),
     (3393, 3396), (3405, 3405), (3426, 3427), (3457, 3457), (3530, 3530),
     (3538, 3540), (3542, 3542), (3633, 3633), (3636, 3642), (3654, 3662),
     (3761, 3761), (3764, 3772), (3782, 3782), (3784, 3789), (3864, 3865),
     (3893, 3893), (3895, 3895), (3897, 3897), (3953, 3966), (3968, 3972),
     (3974, 3975), (3981, 3991), (3993, 4028), (4038, 4038), (4141, 4144),
     (4146, 4151), (4153, 4154), (4157, 4158), (4184, 4185), (4190, 4192),
     (4209, 4212), (4226, 4226), (4229, 4230), (4237, 4237), (4253, 4253),
     (4348, 4348), (4957, 4959), (5906, 5908), (5938, 5939), (5970, 5971),
     (6002, 6003), (6068, 6069), (6071, 6077), (6086, 6086), (6089, 6099),
     (6103, 6103), (6109, 6109), (6155, 6159), (6211, 6211), (6277, 6278),
     (6313, 6313), (6432, 6434), (6439, 6440), (6450, 6450), (6457, 6459),
     (6679, 6680), (6683, 6683), (6742, 6742), (6744, 6750), (6752, 6752),
     (6754, 6754), (6757, 6764), (6771, 6780), (6783, 6783), (6823, 6823),
     (6832, 6862), (6912, 6915), (6964, 6964), (6966, 6970), (6972, 6972),
     (6978, 6978), (7019, 7027), (7040, 7041), (7074, 7077), (7080, 7081),
     (7083, 7085), (7142, 7142), (7144, 7145), (7149, 7149), (7151, 7153),
     (7212, 7219), (7222, 7223), (7288, 7293), (7376, 7378), (7380, 7392),
     (7394, 7400), (7405, 7405), (7412, 7412), (7416, 7417), (7468, 7530),
     (7544, 7544), (7579, 7679), (8125, 8125), (8127, 8129), (8141, 8143),
     (8157, 8159), (8173, 8175), (8189, 8190), (8203, 8207), (8216, 8217),
     (8228, 8228), (8231, 8231), (8234, 8238), (8288, 8292), (8294, 8303),
     (8305, 8305), (8319, 8319), (8336, 8348), (8400, 8432), (11388, 11389),
     (11503, 11505), (11631, 11631), (11647, 11647), (11744, 11775), (11823, 11823),
     (12293, 12293), (12330, 12333), (12337, 12341), (12347, 12347), (12441, 12446),
     (12540, 12542), (40981, 40981), (42232, 42237), (42508, 42508), (42607, 42610),
     (42612, 42621), (42623, 42623), (42652, 42655), (42736, 42737), (42752, 42785),
     (42864, 42864), (42888, 42890), (42994, 42996), (43000, 43001), (43010, 43010),
     (43014, 43014), (43019, 43019), (43045, 43046), (43052, 43052), (43204, 43205),
     (43232, 43249), (43263, 43263), (43302, 43309), (43335, 43345), (43392, 43394),
     (43443, 43443), (43446, 43449), (43452, 43453), (43471, 43471), (43493, 43494),
     (43561, 43566), (43569, 43570), (43573, 43574), (43587, 43587), (43596, 43596),
     (43632, 43632), (43644, 43644), (43696, 43696), (43698, 43700), (43703, 43704),
     (43710, 43711), (43713, 43713), (43741, 43741), (43756, 43757), (43763, 43764),
     (43766, 43766), (43867, 43871), (43881, 43883), (44005, 44005), (44008, 44008),
     (44013, 44013), (64286, 64286), (64434, 64450), (65024, 65039), (65043, 65043),
     (65056, 65071), (65106, 65106), (65109, 65109), (65279, 65279), (65287, 65287),
     (65294, 65294), (65306, 65306), (65342, 65342), (65344, 65344), (65392, 65392),
     (65438, 65439), (65507, 65507), (65529, 65531), (66045, 66045), (66272, 66272),
     (66422, 66426), (67456, 67461), (67463, 67504), (67506, 67514), (68097, 68099),
     (68101, 68102), (68108, 68111), (68152, 68154), (68159, 68159), (68325, 68326),
     (68900, 68903), (69291, 69292), (69446, 69456), (69506, 69509), (69633, 69633),
     (69688, 69702), (69744, 69744), (69747, 69748), (69759, 69761), (69811, 69814),
     (69817, 69818), (69821, 69821), (69826, 69826), (69837, 69837), (69888, 69890),
     (69927, 69931), (69933, 69940), (70003, 70003), (70016, 70017), (70070, 70078),
     (70089, 70092), (70095, 70095), (70191, 70193), (70196, 70196), (70198, 70199),
     (70206, 70206), (70367, 70367), (70371, 70378), (70400, 70401), (70459, 70460),
     (70464, 70464), (70502, 70508), (70512, 70516), (70712, 70719), (70722, 70724),
     (70726, 70726), (70750, 70750), (70835, 70840), (70842, 70842), (70847, 70848),
     (70850, 70851), (71090, 71093), (71100, 71101), (71103, 71104), (71132, 71133),
     (71219, 71226), (71229, 71229), (71231, 71232), (71339, 71339), (71341, 71341),
     (71344, 71349), (71351, 71351), (71453, 71455), (71458, 71461), (71463, 71467),
     (71727, 71735), (71737, 71738), (71995, 71996), (71998, 71998), (72003, 72003),
     (72148, 72151), (72154, 72155), (72160, 72160), (72193, 72202), (72243, 72248),
     (72251, 72254), (72263, 72263), (72273, 72278), (72281, 72283), (72330, 72342),
     (72344, 72345), (72752, 72758), (72760, 72765), (72767, 72767), (72850, 72871),
     (72874, 72880), (72882, 72883), (72885, 72886), (73009, 73014), (73018, 73018),
     (73020, 73021), (73023, 73029), (73031, 73031), (73104, 73105), (73109, 73109),
     (73111, 73111), (73459, 73460), (78896, 78904), (92912, 92916), (92976, 92982),
     (92992, 92995), (94031, 94031), (94095, 94111), (94176, 94177), (94179, 94180),
     (110576, 110579), (110581, 110587), (110589, 110590), (113821, 113822), (113824, 113827),
     (118528, 118573), (118576, 118598), (119143, 119145), (119155, 119170), (119173, 119179),
     (119210, 119213), (119362, 119364), (121344, 121398), (121403, 121452), (121461, 121461),
     (121476, 121476), (121499, 121503), (121505, 121519), (122880, 122886), (122888, 122904),
     (122907, 122913), (122915, 122916), (122918, 122922), (123184, 123197), (123566, 123566),
     (123628, 123631), (125136, 125142), (125252, 125259), (127995, 127999), (917505, 917505),
     (917536, 917631), (917760, 917999)]"

definition cased_ranges :: "(nat \<times> nat) list" where
  "cased_ranges =
     [(65, 90), (97, 122), (170, 170), (181, 181), (186, 186),
     (192, 214), (216, 246), (248, 442), (444, 447), (452, 659),
     (661, 687), (880, 883), (886, 887), (891, 893), (895, 895),
     (902, 902), (904, 906), (908, 908), (910, 929), (931, 1013),
     (1015, 1153), (1162, 1327), (1329, 1366), (1376, 1416), (4256, 4293),
     (4295, 4295), (4301, 4301), (4304, 4346), (4349, 4351), (5024, 5109),
     (5112, 5117), (7296, 7304), (7312, 7354), (7357, 7359), (7424, 7467),
     (7531, 7543), (7545, 7578), (7680, 7957), (7960, 7965), (7968, 8005),
     (8008, 8013), (8016, 8023), (8025, 8025), (8027, 8027), (8029, 8029),
     (8031, 8061), (8064, 8116), (8118, 8124), (8126, 8126), (8130, 8132),
     (8134, 8140), (8144, 8147), (8150, 8155), (8160, 8172), (8178, 8180),
     (8182, 8188), (8450, 8450), (8455, 8455), (8458, 8467), (8469, 8469),
     (8473, 8477), (8484, 8484), (8486, 8486), (8488, 8488), (8490, 8493),
     (8495, 8500), (8505, 8505), (8508, 8511), (8517, 8521), (8526, 8526),
     (8544, 8575), (8579, 8580), (9398, 9449), (11264, 11387), (11390, 11492),
     (11499, 11502), (11506, 11507), (11520, 11557), (11559, 11559), (11565, 11565),
     (42560, 42605), (42624, 42651), (42786, 42863), (42865, 42887), (42891, 42894),
     (42896, 42954), (42960, 42961), (42963, 42963), (42965, 42969), (42997, 42998),
     (43002, 43002), (43824, 43866), (43872, 43880), (43888, 43967), (64256, 64262),
     (64275, 64279), (65313, 65338), (65345, 65370), (66560, 66639), (66736, 66771),
     (66776, 66811), (66928, 66938), (66940, 66954), (66956, 66962), (66964, 66965),
     (66967, 66977), (66979, 66993), (66995, 67001), (67003, 67004), (68736, 68786),
     (68800, 68850), (71840, 71903), (93760, 93823), (119808, 119892), (119894, 119964),
     (119966, 119967), (119970, 119970), (119973, 119974), (119977, 119980), (119982, 119993),
     (119995, 119995), (119997, 120003), (120005, 120069), (120071, 120074), (120077, 120084),
     (120086, 120092), (120094, 120121), (120123, 120126), (120128, 120132), (120134, 120134),
     (120138, 120144), (120146, 120485), (120488, 120512), (120514, 120538), (120540, 120570),
     (120572, 120596), (120598, 120628), (120630, 120654), (120656, 120686), (120688, 120712),
     (120714, 120744), (120746, 120770), (120772, 120779), (122624, 122633), (122635, 122654),
     (125184, 125251), (127280, 127305), (127312, 127337), (127344, 127369)]"

section \<open>Python strings\<close>

abbreviation ch :: "char \<Rightarrow> nat" where
  "ch c \<equiv> of_char c"

definition isspace :: "nat \<Rightarrow> bool" where
  "isspace c = (c \<in> set space_points)"

text \<open>\<open>\d\<close> in a \<open>str\<close> pattern: any Unicode decimal digit.\<close>

definition re_digit :: "nat \<Rightarrow> bool" where
  "re_digit c = list_ex (\<lambda>z. z \<le> c \<and> c \<le> z + 9) digit_zeros"

definition isdigit_char :: "nat \<Rightarrow> bool" where
  "isdigit_char c = in_ranges isdigit_ranges c"

text \<open>\<open>str.isdigit()\<close>: false on the empty string.\<close>

definition isdigit :: "ustr \<Rightarrow> bool" where
  "isdigit s = (s \<noteq> [] \<and> list_all isdigit_char s)"

fun map_ranges :: "(nat \<times> nat \<times> nat \<times> nat) list \<Rightarrow> nat \<Rightarrow> nat option" where
  "map_ranges [] c = None"
| "map_ranges ((lo, hi, step, t) # rs) c =
     (if lo \<le> c \<and> c \<le> hi \<and> (c - lo) mod step = 0 then Some (t + (c - lo))
      else map_ranges rs c)"

definition case_map :: "(nat \<times> nat list) list \<Rightarrow> (nat \<times> nat \<times> nat \<times> nat) list \<Rightarrow> nat \<Rightarrow> ustr" where
  "case_map special ranges c =
     (case map_of special c of
        Some v \<Rightarrow> v
      | None \<Rightarrow> (case map_ranges ranges c of Some d \<Rightarrow> [d] | None \<Rightarrow> [c]))"

text \<open>
  \<open>str.lower()\<close> maps every character by the table, but for the capital sigma U+03A3: it
  becomes the final sigma U+03C2 when a cased character comes before it and none comes
  after it, case-ignorable characters skipped on both sides, and the small sigma U+03C3
  otherwise. \<open>lower_from before s\<close> lowers \<open>s\<close>, which follows the characters \<open>before\<close>
  (the nearest first).
\<close>

definition final_sigma :: "ustr \<Rightarrow> ustr \<Rightarrow> bool" where
  "final_sigma before after =
     (let b = dropWhile (in_ranges case_ignorable_ranges) before;
          a = dropWhile (in_ranges case_ignorable_ranges) after
      in b \<noteq> [] \<and> in_ranges cased_ranges (hd b) \<and> (a = [] \<or> \<not> in_ranges cased_ranges (hd a)))"

definition lower_char :: "nat \<Rightarrow> ustr" where
  "lower_char c = case_map lower_special lower_ranges c"

fun lower_from :: "ustr \<Rightarrow> ustr \<Rightarrow> ustr" where
  "lower_from before [] = []"
| "lower_from before (c # cs) =
     (if c = 931 then [if final_sigma before cs then 962 else 963] else lower_char c)
     @ lower_from (c # before) cs"

definition lower :: "ustr \<Rightarrow> ustr" where
  "lower s = lower_from [] s"

text \<open>\<open>str.upper()\<close> maps every character by the table.\<close>

definition upper_char :: "nat \<Rightarrow> ustr" where
  "upper_char c = case_map upper_special upper_ranges c"

definition upper :: "ustr \<Rightarrow> ustr" where
  "upper s = concat (map upper_char s)"

text \<open>\<open>str.strip()\<close> with no argument removes leading and trailing whitespace.\<close>

definition strip :: "ustr \<Rightarrow> ustr" where
  "strip s = rev (dropWhile isspace (rev (dropWhile isspace s)))"

text \<open>
  \<open>s.replace(old, new)\<close>: the occurrences of \<open>old\<close> are found from the left and do not
  overlap. With an empty \<open>old\<close>, Python puts \<open>new\<close> before every character and at the end.
\<close>

function replace :: "ustr \<Rightarrow> ustr \<Rightarrow> ustr \<Rightarrow> ustr" where
  "replace old new [] = (if old = [] then new else [])"
| "replace old new (c # cs) =
     (if old = [] then new @ c # replace old new cs
      else if take (length old) (c # cs) = old
      then new @ replace old new (drop (length old) (c # cs))
      else c # replace old new cs)"
  by pat_completeness auto
termination
  by (relation "measure (\<lambda>(old, new, s). length s)") auto

text \<open>\<open>sep.join(xs)\<close>\<close>

fun join :: "ustr \<Rightarrow> ustr list \<Rightarrow> ustr" where
  "join sep [] = []"
| "join sep [x] = x"
| "join sep (x # y # ys) = x @ sep @ join sep (y # ys)"

section \<open>Regular expressions\<close>

text \<open>
  The part of Python's \<open>re\<close> that the program's three patterns use, with the
  backtracking semantics of the library: a pattern run at a position gives the list of
  all the ways it can match there, in the order in which the backtracking engine tries
  them (the left alternative first, the longest repetition first). The first element of
  the list at the leftmost position is what \<open>re.match\<close> and \<open>re.search\<close> return.
\<close>

datatype regex =
    Lit nat                         \<comment> \<open>a literal character, as \<open>\.\<close> or \<open>,\<close>\<close>
  | Digit                           \<comment> \<open>\<open>\d\<close>\<close>
  | Space                           \<comment> \<open>\<open>\s\<close>\<close>
  | Seq regex regex                 \<comment> \<open>concatenation\<close>
  | Alt regex regex                 \<comment> \<open>\<open>a|b\<close>\<close>
  | Repeat nat "nat option" regex   \<comment> \<open>greedy \<open>{lo,hi}\<close>; no upper bound is \<open>None\<close>\<close>
  | Group nat regex                 \<comment> \<open>capturing group number n\<close>
  | Bol                             \<comment> \<open>\<open>^\<close>\<close>
  | Eol                             \<comment> \<open>\<open>$\<close>\<close>

abbreviation Star :: "regex \<Rightarrow> regex" where "Star r \<equiv> Repeat 0 None r"
abbreviation Plus :: "regex \<Rightarrow> regex" where "Plus r \<equiv> Repeat 1 None r"
abbreviation Opt :: "regex \<Rightarrow> regex" where "Opt r \<equiv> Repeat 0 (Some 1) r"

text \<open>
  A matcher state: the number of characters before the current position, the text from
  the current position on, and what the groups have captured so far.
\<close>

record mstate =
  pos :: nat
  rest :: ustr
  caps :: "nat \<Rightarrow> ustr option"

definition eat :: "(nat \<Rightarrow> bool) \<Rightarrow> mstate \<Rightarrow> mstate list" where
  "eat P st = (case rest st of
       [] \<Rightarrow> []
     | c # cs \<Rightarrow> if P c then [st\<lparr>pos := Suc (pos st), rest := cs\<rparr>] else [])"

text \<open>
  Greedy repetition of a body \<open>m\<close>: one more round of the body is tried before stopping,
  and stopping is allowed once \<open>lo\<close> rounds are done. A round counts only when it consumes
  a character (the bodies of the program's patterns always do), so the length of the
  remaining text bounds the number of rounds; it is the first argument.
\<close>

fun greedy :: "nat \<Rightarrow> (mstate \<Rightarrow> mstate list) \<Rightarrow> nat \<Rightarrow> nat option \<Rightarrow> mstate \<Rightarrow> mstate list" where
  "greedy 0 m lo hi st = (if lo = 0 then [st] else [])"
| "greedy (Suc k) m lo hi st =
     (if hi = Some 0 then []
      else concat (map (greedy k m (lo - 1) (map_option (\<lambda>h. h - 1) hi))
                       (filter (\<lambda>st'. length (rest st') < length (rest st)) (m st))))
     @ (if lo = 0 then [st] else [])"

definition newline :: nat where
  "newline = 10"

primrec rmatch :: "regex \<Rightarrow> mstate \<Rightarrow> mstate list" where
  "rmatch (Lit c) st = eat (\<lambda>x. x = c) st"
| "rmatch Digit st = eat re_digit st"
| "rmatch Space st = eat isspace st"
| "rmatch (Seq a b) st = concat (map (rmatch b) (rmatch a st))"
| "rmatch (Alt a b) st = rmatch a st @ rmatch b st"
| "rmatch (Repeat lo hi r) st = greedy (length (rest st)) (rmatch r) lo hi st"
| "rmatch (Group n r) st =
     map (\<lambda>st'. st'\<lparr>caps := (caps st')(n \<mapsto> take (pos st' - pos st) (rest st))\<rparr>) (rmatch r st)"
| "rmatch Bol st = (if pos st = 0 then [st] else [])"
| "rmatch Eol st = (if rest st = [] \<or> rest st = [newline] then [st] else [])"

text \<open>\<open>pattern.match(s)\<close>: the pattern is tried at position 0 only.\<close>

definition re_match :: "regex \<Rightarrow> ustr \<Rightarrow> mstate option" where
  "re_match p s = (case rmatch p \<lparr>pos = 0, rest = s, caps = Map.empty\<rparr> of
       [] \<Rightarrow> None
     | st # _ \<Rightarrow> Some st)"

text \<open>
  \<open>re.search(p, s)\<close>: the pattern is tried at every position from the left, the end of
  the string included; \<open>search_from p i s\<close> searches the text \<open>s\<close> that starts at
  position \<open>i\<close> and gives the position where the match starts and the state at its end.
\<close>

fun search_from :: "regex \<Rightarrow> nat \<Rightarrow> ustr \<Rightarrow> (nat \<times> mstate) option" where
  "search_from p i s = (case rmatch p \<lparr>pos = i, rest = s, caps = Map.empty\<rparr> of
       st # _ \<Rightarrow> Some (i, st)
     | [] \<Rightarrow> (case s of [] \<Rightarrow> None | _ # cs \<Rightarrow> search_from p (Suc i) cs))"

definition re_search :: "regex \<Rightarrow> ustr \<Rightarrow> mstate option" where
  "re_search p s = map_option snd (search_from p 0 s)"

text \<open>\<open>m.group(n)\<close> of a group that took part in the match.\<close>

definition group :: "mstate \<Rightarrow> nat \<Rightarrow> ustr" where
  "group m n = (case caps m n of Some w \<Rightarrow> w | None \<Rightarrow> [])"

section \<open>The extractor\<close>

text \<open>\<open>CODE_RE = re.compile(r"^\s*\d+(?:\.\d+)?\s*$")\<close>\<close>

definition CODE_RE :: regex where
  "CODE_RE =
     Seq Bol (Seq (Star Space) (Seq (Plus Digit)
       (Seq (Opt (Seq (Lit (ch CHR ''.'')) (Plus Digit))) (Seq (Star Space) Eol))))"

text \<open>\<open>norm\<close>: the text of a cell is a \<open>str\<close>, so \<open>s or ""\<close> is \<open>s\<close>.\<close>

definition norm :: "ustr \<Rightarrow> ustr" where
  "norm s = strip (replace [160] (u '' '') s)"

text \<open>
  What the program reads of a document: its tables in order, a table being its rows and
  a row the texts of its cells.
\<close>

type_synonym row = "ustr list"
type_synonym table = "row list"
type_synonym document = "table list"

definition is_itens_table :: "table \<Rightarrow> bool" where
  "is_itens_table t = (case t of
       [] \<Rightarrow> False
     | r # _ \<Rightarrow> (let first_row_texts = map norm r
                in list_ex (\<lambda>t. lower t = (u ''itens'')) first_row_texts))"

text \<open>
  The pattern of the fallback search,
  \<open>(\d{1,3}(?:\.\d{3})*,\d+|\d+,\d+|\d+)\<close>.
\<close>

definition QTY_RE :: regex where
  "QTY_RE = Group 1
     (Alt (Seq (Repeat 1 (Some 3) Digit)
            (Seq (Star (Seq (Lit (ch CHR ''.'')) (Repeat 3 (Some 3) Digit)))
              (Seq (Lit (ch CHR '','')) (Plus Digit))))
       (Alt (Seq (Plus Digit) (Seq (Lit (ch CHR '','')) (Plus Digit)))
            (Plus Digit)))"

definition pick_quantity_from_row :: "ustr list \<Rightarrow> ustr" where
  "pick_quantity_from_row cells_text =
     (let q = (if length cells_text \<ge> 3 then norm (cells_text ! 2) else [])
      in if length cells_text \<ge> 3 \<and> q \<noteq> [] \<and> upper q \<noteq> (u ''#N/D'') then q
         else (let joined = join (u '' '') cells_text
               in case re_search QTY_RE joined of
                    Some m \<Rightarrow> group m 1
                  | None \<Rightarrow> []))"

text \<open>A skip record \<open>(t_i, r_i, reason, value)\<close>.\<close>

type_synonym skip = "nat \<times> nat \<times> ustr \<times> ustr"

text \<open>
  The body of the inner loop, for the row \<open>row\<close> numbered \<open>r_i\<close> of the table numbered
  \<open>t_i\<close>: it appends to \<open>results\<close> or to \<open>logs\<close>.
\<close>

definition extract_row ::
  "nat \<Rightarrow> nat \<Rightarrow> row \<Rightarrow> (ustr \<times> ustr) list \<times> skip list \<Rightarrow> (ustr \<times> ustr) list \<times> skip list" where
  "extract_row t_i r_i row acc =
     (let (results, logs) = acc; cells = map norm row
      in if cells = [] then (results, logs @ [(t_i, r_i, (u ''skip_empty_row''), [])])
         else let code = norm (cells ! 0)
              in if code = [] \<or> upper code = (u ''#N/D'')
                 then (results, logs @ [(t_i, r_i, (u ''skip_code_empty_or_ND''), [])])
                 else if re_match CODE_RE code = None
                 then (results, logs @ [(t_i, r_i, (u ''skip_code_invalid''), code)])
                 else let qty = pick_quantity_from_row cells
                      in if qty = [] \<or> upper qty = (u ''#N/D'')
                         then (results, logs @ [(t_i, r_i, (u ''skip_qty_empty_or_ND''), code)])
                         else (results @ [(strip code, strip qty)], logs))"

text \<open>The inner loop, \<open>for r_i, row in enumerate(table.rows[1:], start=2)\<close>.\<close>

fun extract_rows ::
  "nat \<Rightarrow> nat \<Rightarrow> row list \<Rightarrow> (ustr \<times> ustr) list \<times> skip list \<Rightarrow> (ustr \<times> ustr) list \<times> skip list" where
  "extract_rows t_i r_i [] acc = acc"
| "extract_rows t_i r_i (row # rows) acc = extract_rows t_i (Suc r_i) rows (extract_row t_i r_i row acc)"

text \<open>
  The outer loop, \<open>for t_i, table in enumerate(doc.tables, start=1)\<close>; the state is
  \<open>(results, logs)\<close> and the counter \<open>itens_tables\<close>.
\<close>

fun extract_tables ::
  "nat \<Rightarrow> table list \<Rightarrow> ((ustr \<times> ustr) list \<times> skip list) \<times> nat \<Rightarrow> ((ustr \<times> ustr) list \<times> skip list) \<times> nat" where
  "extract_tables t_i [] st = st"
| "extract_tables t_i (table # tables) (acc, itens_tables) =
     (if \<not> is_itens_table table then extract_tables (Suc t_i) tables (acc, itens_tables)
      else extract_tables (Suc t_i) tables (extract_rows t_i 2 (tl table) acc, itens_tables + 1))"

text \<open>The \<open>meta\<close> dictionary that \<open>extract_code_qty\<close> returns.\<close>

record meta =
  tables_total :: nat
  itens_tables :: nat
  rows_extracted :: nat
  rows_ignored :: nat
  ignored_details :: "skip list"

definition extract_code_qty :: "document \<Rightarrow> (ustr \<times> ustr) list \<times> meta" where
  "extract_code_qty doc =
     (let ((results, logs), n) = extract_tables 1 doc (([], []), 0)
      in (results,
          \<lparr>tables_total = length doc, itens_tables = n, rows_extracted = length results,
           rows_ignored = length logs, ignored_details = logs\<rparr>))"
section \<open>Auxiliary definitions for the proofs\<close>

definition adv :: "nat \<Rightarrow> mstate \<Rightarrow> mstate" where
  "adv n st = st\<lparr>pos := pos st + n, rest := drop n (rest st)\<rparr>"

definition upto_hi :: "nat option \<Rightarrow> nat \<Rightarrow> nat" where
  "upto_hi hi n = (case hi of None \<Rightarrow> n | Some h \<Rightarrow> min h n)"

definition cls :: "regex \<Rightarrow> (nat \<Rightarrow> bool) \<Rightarrow> bool" where
  "cls r P = (rmatch r = eat P)"

abbreviation run :: "(nat \<Rightarrow> bool) \<Rightarrow> ustr \<Rightarrow> nat" where
  "run P s \<equiv> length (takeWhile P s)"

definition code_tail4 :: regex where
  "code_tail4 = Seq (Star Space) Eol"

definition code_frac :: regex where
  "code_frac = Seq (Lit (ch CHR ''.'')) (Plus Digit)"

definition code_tail3 :: regex where
  "code_tail3 = Seq (Opt code_frac) code_tail4"

definition code_tail2 :: regex where
  "code_tail2 = Seq (Plus Digit) code_tail3"

definition code_tail1 :: regex where
  "code_tail1 = Seq (Star Space) code_tail2"

definition frac_ok :: "ustr \<Rightarrow> bool" where
  "frac_ok s = (list_all isspace s \<or>
     (\<exists>s3. s = (ch CHR ''.'') # s3 \<and> takeWhile re_digit s3 \<noteq> [] \<and> list_all isspace (dropWhile re_digit s3)))"

definition code_ok :: "ustr \<Rightarrow> bool" where
  "code_ok s = (takeWhile re_digit s \<noteq> [] \<and> frac_ok (dropWhile re_digit s))"

definition steps :: "mstate \<Rightarrow> mstate \<Rightarrow> bool" where
  "steps st st' = (\<exists>w. rest st = w @ rest st' \<and> pos st' = pos st + length w)"

definition QTY_ALT :: regex where
  "QTY_ALT = (Alt (Seq (Repeat 1 (Some 3) Digit)
            (Seq (Star (Seq (Lit (ch CHR ''.'')) (Repeat 3 (Some 3) Digit)))
              (Seq (Lit (ch CHR '','')) (Plus Digit))))
       (Alt (Seq (Plus Digit) (Seq (Lit (ch CHR '','')) (Plus Digit)))
            (Plus Digit)))"

definition skip_reasons :: "ustr set" where
  "skip_reasons = {(u ''skip_empty_row''), (u ''skip_code_empty_or_ND''), (u ''skip_code_invalid'')}"

definition data_rows :: "table list \<Rightarrow> nat" where
  "data_rows tables = sum_list (map (\<lambda>t. length t - 1) (filter is_itens_table tables))"
section \<open>Lemmas\<close>

declare u_def [simp]

lemma adv_0 [simp]: "adv 0 st = st"
  by (simp add: adv_def)

lemma adv_adv [simp]: "adv n (adv k st) = adv (k + n) st"
  by (simp add: adv_def add.assoc add.commute)

lemma adv_sel [simp]: "pos (adv n st) = pos st + n" "rest (adv n st) = drop n (rest st)"
  "caps (adv n st) = caps st"
  by (simp_all add: adv_def)

lemma eat_adv: "eat P st = (if rest st \<noteq> [] \<and> P (hd (rest st)) then [adv 1 st] else [])"
  by (cases "rest st") (simp_all add: eat_def adv_def)

lemma greedy_class:
  "length (rest st) \<le> k \<Longrightarrow>
   greedy k (eat P) lo hi st =
     map (\<lambda>n. adv n st) (rev [lo ..< Suc (upto_hi hi (length (takeWhile P (rest st))))])"
proof (induction k arbitrary: st lo hi)
  case 0
  then show ?case by (simp add: upto_hi_def split: option.splits)
next
  case (Suc k)
  show ?case
  proof (cases "rest st \<noteq> [] \<and> P (hd (rest st))")
    case False
    then have "takeWhile P (rest st) = []" by (cases "rest st") auto
    with False show ?thesis by (auto simp: eat_adv upto_hi_def split: option.splits)
  next
    case True
    then obtain c cs where r: "rest st = c # cs" "P c" by (cases "rest st") auto
    have len: "length (rest (adv 1 st)) \<le> k" using Suc.prems r by simp
    have tw: "length (takeWhile P (rest st)) = Suc (length (takeWhile P cs))" using r by simp
    show ?thesis
    proof (cases "hi = Some 0")
      case True
      then show ?thesis by (simp add: upto_hi_def)
    next
      case False
      define U where "U = upto_hi (map_option (\<lambda>h. h - 1) hi) (length (takeWhile P cs))"
      have step: "greedy (Suc k) (eat P) lo hi st =
         greedy k (eat P) (lo - 1) (map_option (\<lambda>h. h - 1) hi) (adv 1 st) @ (if lo = 0 then [st] else [])"
        using False r by (simp add: eat_adv)
      have u: "upto_hi hi (length (takeWhile P (rest st))) = Suc U"
        using False r by (cases hi) (auto simp: upto_hi_def min_def U_def)
      have r1: "rest (adv 1 st) = cs" using r by simp
      have m: "map (\<lambda>n. adv n (adv 1 st)) (rev [a ..< b]) = map (\<lambda>n. adv n st) (rev [Suc a ..< Suc b])" for a b
      proof -
        have e: "[Suc a ..< Suc b] = map Suc [a ..< b]" by (simp only: map_Suc_upt)
        show ?thesis unfolding e rev_map map_map by (simp add: o_def)
      qed
      have IH: "greedy k (eat P) (lo - 1) (map_option (\<lambda>h. h - 1) hi) (adv 1 st) =
         map (\<lambda>n. adv n st) (rev [Suc (lo - 1) ..< Suc (Suc U)])"
        unfolding Suc.IH[OF len] r1 m U_def ..
      have z: "rev [0 ..< Suc (Suc b)] = rev [Suc 0 ..< Suc (Suc b)] @ [0]" for b
        by (simp add: upt_conv_Cons del: upt_Suc)
      show ?thesis
      proof (cases lo)
        case 0
        have "greedy (Suc k) (eat P) lo hi st = map (\<lambda>n. adv n st) (rev [Suc 0 ..< Suc (Suc U)]) @ [st]"
          unfolding step IH using 0 by simp
        also have "\<dots> = map (\<lambda>n. adv n st) (rev [0 ..< Suc (Suc U)])"
          unfolding z by simp
        finally show ?thesis unfolding u using 0 by simp
      next
        case (Suc l)
        have "greedy (Suc k) (eat P) lo hi st = map (\<lambda>n. adv n st) (rev [lo ..< Suc (Suc U)])"
          unfolding step IH using Suc by simp
        then show ?thesis unfolding u .
      qed
    qed
  qed
qed

lemma cls_Digit [simp]: "cls Digit re_digit"
  and cls_Space [simp]: "cls Space isspace"
  and cls_Lit [simp]: "cls (Lit c) (\<lambda>x. x = c)"
  by (auto simp: cls_def)

lemma rmatch_cls: "cls r P \<Longrightarrow> rmatch r st = (if rest st \<noteq> [] \<and> P (hd (rest st)) then [adv 1 st] else [])"
  by (simp add: cls_def eat_adv)

lemma rep_cls_list:
  assumes "cls r P"
  shows "rmatch (Repeat lo hi r) st =
     map (\<lambda>n. adv n st) (rev [lo ..< Suc (upto_hi hi (length (takeWhile P (rest st))))])"
  using assms greedy_class[of st "length (rest st)" P lo hi] by (simp add: cls_def)

lemma concat_map_concat: "concat (map f (concat (map g xs))) = concat (map (\<lambda>x. concat (map f (g x))) xs)"
  by (induction xs) auto

lemma rmatch_Seq_assoc: "rmatch (Seq (Seq a b) c) st = rmatch (Seq a (Seq b c)) st"
proof -
  have "rmatch (Seq b c) = (\<lambda>x. concat (map (rmatch c) (rmatch b x)))"
    by (rule ext) simp
  then show ?thesis by (simp add: concat_map_concat)
qed

lemma rep_seq_list:
  assumes "cls r P"
  shows "rmatch (Seq (Repeat lo hi r) X) st =
     concat (map (\<lambda>n. rmatch X (adv n st)) (rev [lo ..< Suc (upto_hi hi (run P (rest st)))]))"
  unfolding rmatch.simps(4) rep_cls_list[OF assms] by (simp add: o_def)

lemma rep_seq_nonempty:
  assumes "cls r P"
  shows "rmatch (Seq (Repeat lo hi r) X) st \<noteq> [] \<longleftrightarrow>
     (\<exists>n. lo \<le> n \<and> n \<le> upto_hi hi (run P (rest st)) \<and> rmatch X (adv n st) \<noteq> [])"
  unfolding rep_seq_list[OF assms] by (auto simp: less_Suc_eq_le)

lemma run_le: "run P s \<le> length s"
  by (rule length_takeWhile_le)

lemma run_full: "run P s = length s \<longleftrightarrow> list_all P s"
  by (induction s) (auto)

lemma run_stop: "run P s < length s \<Longrightarrow> \<not> P (s ! run P s)"
  by (induction s) (auto)

lemma run_prefix: "n < run P s \<Longrightarrow> P (s ! n)"
  by (metis nth_length_takeWhile takeWhile_nth  set_takeWhileD nth_mem)

lemma isspace_newline: "isspace newline"
  by (simp add: isspace_def newline_def space_points_def)

lemma T4_iff: "rmatch code_tail4 st \<noteq> [] \<longleftrightarrow> list_all isspace (rest st)"
proof
  assume "rmatch code_tail4 st \<noteq> []"
  then obtain n where n: "n \<le> run isspace (rest st)"
    and e: "drop n (rest st) = [] \<or> drop n (rest st) = [newline]"
    unfolding code_tail4_def rep_seq_nonempty[OF cls_Space] by (auto simp: upto_hi_def split: if_splits)
  let ?s = "rest st"
  from e show "list_all isspace ?s"
  proof
    assume "drop n ?s = []"
    then have "run isspace ?s = length ?s" using n run_le[of isspace ?s] by simp
    then show ?thesis by (simp add: run_full)
  next
    assume d: "drop n ?s = [newline]"
    then have l: "length ?s = Suc n" by (metis One_nat_def Suc_eq_plus1 add.commute add_diff_cancel_left' drop_all le_add_diff_inverse length_Cons length_drop linorder_le_cases list.size(3) not_Cons_self2 plus_1_eq_Suc)
    have nl: "?s ! n = newline" using d l by (metis Cons_nth_drop_Suc lessI list.inject)
    have "run isspace ?s \<noteq> n" using run_stop[of isspace ?s] l nl isspace_newline by auto
    then have "run isspace ?s = length ?s" using n l run_le[of isspace ?s] by simp
    then show ?thesis by (simp add: run_full)
  qed
next
  assume a: "list_all isspace (rest st)"
  then have "run isspace (rest st) = length (rest st)" by (simp add: run_full)
  then show "rmatch code_tail4 st \<noteq> []"
    unfolding code_tail4_def rep_seq_nonempty[OF cls_Space] by (auto simp: upto_hi_def intro!: exI[of _ "length (rest st)"])
qed

lemma greedy_zero_hi: "greedy k m 0 (Some 0) st = [st]"
  by (cases k) simp_all

lemma rmatch_Opt: "rmatch (Opt r) st = filter (\<lambda>st'. length (rest st') < length (rest st)) (rmatch r st) @ [st]"
proof -
  have "greedy k m 0 (Some 0) = (\<lambda>st. [st])" for k and m :: "mstate \<Rightarrow> mstate list"
    by (rule ext) (rule greedy_zero_hi)
  then show ?thesis by (cases "rest st") simp_all
qed

lemma spaces_not_digits: "list_all (\<lambda>c. \<not> re_digit c) space_points"
  by (simp add: space_points_def re_digit_def digit_zeros_def)

lemma space_not_digit': "isspace c \<Longrightarrow> \<not> re_digit c"
  using spaces_not_digits by (simp add: isspace_def list_all_iff)

lemma digit_not_space: "re_digit c \<Longrightarrow> \<not> isspace c"
  using space_not_digit' by blast

lemma dot_not_digit: "\<not> re_digit 46" and dot_not_space: "\<not> isspace 46"
  by (simp_all add: re_digit_def digit_zeros_def isspace_def space_points_def)

lemma drop_run: "drop (run P s) s = dropWhile P s"
  by (induction s) auto

lemma hd_drop_run: "n < run P s \<Longrightarrow> drop n s \<noteq> [] \<and> P (hd (drop n s))"
  using run_prefix[of n P s] run_le[of P s] by (simp add: hd_drop_conv_nth)

lemma run_then:
  assumes "\<And>t. Q t \<Longrightarrow> t \<noteq> [] \<Longrightarrow> \<not> P (hd t)"
  shows "(\<exists>n. lo \<le> n \<and> n \<le> run P s \<and> Q (drop n s)) \<longleftrightarrow> lo \<le> run P s \<and> Q (dropWhile P s)"
proof
  assume "\<exists>n. lo \<le> n \<and> n \<le> run P s \<and> Q (drop n s)"
  then obtain n where n: "lo \<le> n" "n \<le> run P s" "Q (drop n s)" by blast
  have "\<not> n < run P s" using hd_drop_run[of n P s] assms[OF n(3)] by blast
  then have "n = run P s" using n by simp
  then show "lo \<le> run P s \<and> Q (dropWhile P s)" using n by (simp add: drop_run)
next
  assume "lo \<le> run P s \<and> Q (dropWhile P s)"
  then show "\<exists>n. lo \<le> n \<and> n \<le> run P s \<and> Q (drop n s)"
    by (intro exI[of _ "run P s"]) (simp add: drop_run)
qed

lemma body_T4: "concat (map (rmatch code_tail4) (filter (\<lambda>st'. length (rest st') < length (rest st)) (rmatch code_frac st))) \<noteq> [] \<longleftrightarrow>
   (\<exists>s3. rest st = (ch CHR ''.'') # s3 \<and> takeWhile re_digit s3 \<noteq> [] \<and> list_all isspace (dropWhile re_digit s3))"
proof (cases "rest st \<noteq> [] \<and> hd (rest st) = (ch CHR ''.'')")
  case False
  then show ?thesis by (auto simp: code_frac_def eat_adv)
next
  case True
  then obtain s3 where s: "rest st = (ch CHR ''.'') # s3" by (cases "rest st") auto
  have b: "rmatch code_frac st = map (\<lambda>n. adv n (adv 1 st)) (rev [1 ..< Suc (run re_digit s3)])"
    using s by (simp add: code_frac_def eat_adv rep_cls_list[OF cls_Digit] upto_hi_def del: rmatch.simps(6) upt_Suc)
  have f: "filter (\<lambda>st'. length (rest st') < length (rest st)) (rmatch code_frac st) = rmatch code_frac st"
    unfolding b using s by (auto simp: filter_id_conv)
  have "concat (map (rmatch code_tail4) (rmatch code_frac st)) \<noteq> [] \<longleftrightarrow>
    (\<exists>n. 1 \<le> n \<and> n \<le> run re_digit s3 \<and> list_all isspace (drop n s3))"
    unfolding b using s by (auto simp: T4_iff less_Suc_eq_le simp del: upt_Suc)
  also have "\<dots> \<longleftrightarrow> 1 \<le> run re_digit s3 \<and> list_all isspace (dropWhile re_digit s3)"
    by (rule run_then) (auto dest: digit_not_space simp: neq_Nil_conv)
  finally show ?thesis using s f by (auto simp: Suc_le_eq)
qed

lemma T3_iff: "rmatch code_tail3 st \<noteq> [] \<longleftrightarrow> frac_ok (rest st)"
  unfolding code_tail3_def rmatch.simps(4) rmatch_Opt using body_T4[of st] T4_iff[of st]
  by (auto simp: frac_ok_def simp del: rmatch.simps)

lemma frac_ok_hd: "frac_ok t \<Longrightarrow> t \<noteq> [] \<Longrightarrow> \<not> re_digit (hd t)"
  by (auto simp: frac_ok_def neq_Nil_conv dot_not_digit dest: digit_not_space)

lemma T2_iff: "rmatch code_tail2 st \<noteq> [] \<longleftrightarrow>
   takeWhile re_digit (rest st) \<noteq> [] \<and> frac_ok (dropWhile re_digit (rest st))"
proof -
  have "rmatch code_tail2 st \<noteq> [] \<longleftrightarrow> (\<exists>n. 1 \<le> n \<and> n \<le> run re_digit (rest st) \<and> frac_ok (drop n (rest st)))"
    unfolding code_tail2_def rep_seq_nonempty[OF cls_Digit] by (simp add: T3_iff upto_hi_def)
  also have "\<dots> \<longleftrightarrow> 1 \<le> run re_digit (rest st) \<and> frac_ok (dropWhile re_digit (rest st))"
    by (rule run_then) (rule frac_ok_hd)
  finally show ?thesis by (auto simp: Suc_le_eq)
qed

lemma code_ok_hd: "code_ok t \<Longrightarrow> t \<noteq> [] \<Longrightarrow> \<not> isspace (hd t)"
  by (cases t) (auto simp: code_ok_def dest: digit_not_space split: if_splits)

lemma T1_iff: "rmatch code_tail1 st \<noteq> [] \<longleftrightarrow> code_ok (dropWhile isspace (rest st))"
proof -
  have "rmatch code_tail1 st \<noteq> [] \<longleftrightarrow> (\<exists>n. 0 \<le> n \<and> n \<le> run isspace (rest st) \<and> code_ok (drop n (rest st)))"
    unfolding code_tail1_def rep_seq_nonempty[OF cls_Space] by (simp add: T2_iff upto_hi_def code_ok_def)
  also have "\<dots> \<longleftrightarrow> 0 \<le> run isspace (rest st) \<and> code_ok (dropWhile isspace (rest st))"
    by (rule run_then) (rule code_ok_hd)
  finally show ?thesis by simp
qed

lemma CODE_RE_T1: "CODE_RE = Seq Bol code_tail1"
  by (simp add: CODE_RE_def code_tail1_def code_tail2_def code_tail3_def code_tail4_def code_frac_def)

lemma code_re_iff: "re_match CODE_RE c \<noteq> None \<longleftrightarrow> code_ok (dropWhile isspace c)"
proof -
  have "re_match CODE_RE c \<noteq> None \<longleftrightarrow> rmatch code_tail1 \<lparr>pos = 0, rest = c, caps = Map.empty\<rparr> \<noteq> []"
    unfolding CODE_RE_T1 re_match_def by (simp split: list.splits)
  then show ?thesis by (simp add: T1_iff)
qed

lemma strip_decomp: "\<exists>ws. dropWhile isspace c = strip c @ ws \<and> list_all isspace ws"
proof -
  let ?r = "rev (dropWhile isspace c)"
  have "?r = takeWhile isspace ?r @ dropWhile isspace ?r" by simp
  then have "rev ?r = rev (dropWhile isspace ?r) @ rev (takeWhile isspace ?r)"
    by (metis rev_append)
  then have "dropWhile isspace c = strip c @ rev (takeWhile isspace ?r)"
    by (simp add: strip_def)
  moreover have "list_all isspace (rev (takeWhile isspace ?r))"
    by (simp add: list_all_iff) (meson set_takeWhileD)
  ultimately show ?thesis by blast
qed

lemma strip_core:
  assumes "dropWhile isspace c = core @ ws" "list_all isspace ws" "core \<noteq> []" "\<not> isspace (last core)"
  shows "strip c = core"
proof -
  have "dropWhile isspace (rev ws @ rev core) = rev core"
    using assms(2,3,4) by (cases "rev core") (auto simp: dropWhile_append list_all_iff last_rev[symmetric] hd_rev simp del: last_rev)
  then show ?thesis by (simp add: strip_def assms(1))
qed

lemma takeWhile_app_stop:
  "list_all P a \<Longrightarrow> ws = [] \<or> \<not> P (hd ws) \<Longrightarrow> takeWhile P (a @ ws) = a \<and> dropWhile P (a @ ws) = ws"
  by (cases ws) (auto simp: list_all_iff takeWhile_append dropWhile_append)

lemma all_space_hd: "list_all isspace ws \<Longrightarrow> ws = [] \<or> \<not> re_digit (hd ws)"
  by (cases ws) (auto dest: digit_not_space)

lemma code_grammar:
  "(re_match CODE_RE c \<noteq> None) =
   (\<exists>a. a \<noteq> [] \<and> list_all re_digit a \<and>
      (strip c = a \<or> (\<exists>b. b \<noteq> [] \<and> list_all re_digit b \<and> strip c = a @ (u ''.'') @ b)))"
  (is "?L = ?R")
proof
  let ?s1 = "dropWhile isspace c"
  let ?a = "takeWhile re_digit ?s1" and ?s2 = "dropWhile re_digit ?s1"
  assume ?L
  then have "code_ok ?s1" by (rule code_re_iff[THEN iffD1])
  then have ok: "?a \<noteq> []" "frac_ok ?s2" by (simp_all add: code_ok_def)
  have a: "list_all re_digit ?a" by (simp add: list_all_iff) (meson set_takeWhileD)
  have la: "\<not> isspace (last ?a)" using ok(1) a by (metis digit_not_space last_in_set list_all_iff)
  from ok(2) show ?R unfolding frac_ok_def
  proof
    assume "list_all isspace ?s2"
    then have "strip c = ?a" using strip_core[of c ?a ?s2] ok(1) la by simp
    then show ?R using ok(1) a by blast
  next
    assume "\<exists>s3. ?s2 = (ch CHR ''.'') # s3 \<and> takeWhile re_digit s3 \<noteq> [] \<and> list_all isspace (dropWhile re_digit s3)"
    then obtain s3 where s3: "?s2 = (ch CHR ''.'') # s3" "takeWhile re_digit s3 \<noteq> []"
      "list_all isspace (dropWhile re_digit s3)" by blast
    let ?b = "takeWhile re_digit s3"
    have b: "list_all re_digit ?b" by (simp add: list_all_iff) (meson set_takeWhileD)
    have lb: "\<not> isspace (last ?b)" using s3(2) b by (metis digit_not_space last_in_set list_all_iff)
    have "?s1 = ?a @ ?s2" by simp
    also have "\<dots> = (?a @ (u ''.'') @ ?b) @ dropWhile re_digit s3" using s3(1) by simp
    finally have "strip c = ?a @ (u ''.'') @ ?b"
      using strip_core[of c "?a @ (u ''.'') @ ?b" "dropWhile re_digit s3"] s3 lb by simp
    then show ?R using ok(1) a b s3(2) by blast
  qed
next
  assume ?R
  then obtain a where a: "a \<noteq> []" "list_all re_digit a"
    and d: "strip c = a \<or> (\<exists>b. b \<noteq> [] \<and> list_all re_digit b \<and> strip c = a @ (u ''.'') @ b)" by blast
  obtain ws where ws: "dropWhile isspace c = strip c @ ws" "list_all isspace ws"
    using strip_decomp by blast
  from d have "code_ok (dropWhile isspace c)"
  proof
    assume "strip c = a"
    then have "dropWhile isspace c = a @ ws" using ws by simp
    moreover have "takeWhile re_digit (a @ ws) = a \<and> dropWhile re_digit (a @ ws) = ws"
      using takeWhile_app_stop[OF a(2)] all_space_hd[OF ws(2)] by blast
    ultimately show ?thesis using a ws(2) by (simp add: code_ok_def frac_ok_def)
  next
    assume "\<exists>b. b \<noteq> [] \<and> list_all re_digit b \<and> strip c = a @ (u ''.'') @ b"
    then obtain b where b: "b \<noteq> []" "list_all re_digit b" "strip c = a @ (u ''.'') @ b" by blast
    have e: "dropWhile isspace c = a @ ((ch CHR ''.'') # b @ ws)" using ws b by simp
    have 1: "takeWhile re_digit (a @ ((ch CHR ''.'') # b @ ws)) = a \<and> dropWhile re_digit (a @ ((ch CHR ''.'') # b @ ws)) = (ch CHR ''.'') # b @ ws"
      using takeWhile_app_stop[OF a(2), of "(ch CHR ''.'') # b @ ws"] by (simp add: dot_not_digit)
    have 2: "takeWhile re_digit (b @ ws) = b \<and> dropWhile re_digit (b @ ws) = ws"
      using takeWhile_app_stop[OF b(2)] all_space_hd[OF ws(2)] by blast
    show ?thesis unfolding e code_ok_def frac_ok_def using 1 2 a b ws(2) by simp
  qed
  then show ?L by (rule code_re_iff[THEN iffD2])
qed

lemma steps_refl: "steps st st"
  by (simp add: steps_def)

lemma steps_trans: "steps a b \<Longrightarrow> steps b c \<Longrightarrow> steps a c"
  by (auto simp: steps_def)

lemma eat_steps: "st' \<in> set (eat P st) \<Longrightarrow> steps st st'"
  by (cases "rest st") (auto simp: eat_def steps_def split: if_splits intro: exI[of _ "[hd (rest st)]"])

lemma greedy_steps:
  assumes "\<And>a b. b \<in> set (m a) \<Longrightarrow> steps a b"
  shows "st' \<in> set (greedy k m lo hi st) \<Longrightarrow> steps st st'"
proof (induction k arbitrary: st lo hi)
  case 0
  then show ?case by (auto simp: steps_refl split: if_splits)
next
  case (Suc k)
  from Suc.prems show ?case
    by (auto simp: steps_refl split: if_splits intro: steps_trans[OF assms Suc.IH])
qed

lemma rmatch_steps: "st' \<in> set (rmatch r st) \<Longrightarrow> steps st st'"
proof (induction r arbitrary: st st')
  case (Seq a b)
  from Seq.prems obtain x where "x \<in> set (rmatch a st)" "st' \<in> set (rmatch b x)" by auto
  then show ?case using Seq.IH steps_trans by blast
next
  case (Repeat lo hi r)
  then show ?case by (auto intro: greedy_steps)
next
  case (Group n r)
  then show ?case by (auto simp: steps_def)
qed (auto simp: steps_refl split: if_splits dest: eat_steps)

lemma steps_adv: "steps (adv n st) st' \<Longrightarrow> n \<le> length (rest st) \<Longrightarrow> steps st st'"
proof -
  assume a: "steps (adv n st) st'" and n: "n \<le> length (rest st)"
  then obtain w where w: "drop n (rest st) = w @ rest st'" "pos st' = pos st + n + length w"
    by (auto simp: steps_def)
  have "rest st = (take n (rest st) @ w) @ rest st'"
    using w(1) by (metis append_assoc append_take_drop_id)
  moreover have "pos st' = pos st + length (take n (rest st) @ w)" using w(2) n by simp
  ultimately show ?thesis unfolding steps_def by blast
qed

lemma upto_hi_le: "upto_hi hi n \<le> n"
  by (simp add: upto_hi_def split: option.splits)

lemma rep_seq_first:
  assumes "st' \<in> set (rmatch (Seq (Repeat (Suc l) hi Digit) X) st)"
  shows "rest st \<noteq> [] \<and> re_digit (hd (rest st)) \<and> pos st < pos st'"
proof -
  from assms obtain n where n: "Suc l \<le> n" "n \<le> upto_hi hi (run re_digit (rest st))"
    "st' \<in> set (rmatch X (adv n st))"
    unfolding rep_seq_list[OF cls_Digit] by (auto simp: less_Suc_eq_le)
  have "Suc l \<le> run re_digit (rest st)"
    using n(1,2) upto_hi_le[of hi "run re_digit (rest st)"] by (rule_tac order_trans[OF _ order_trans])
  then have r: "0 < run re_digit (rest st)" by linarith
  then have "rest st \<noteq> [] \<and> re_digit (hd (rest st))" by (cases "rest st") (auto split: if_splits)
  moreover have "pos st < pos st'" using rmatch_steps[OF n(3)] n(1) by (auto simp: steps_def)
  ultimately show ?thesis by simp
qed

lemma plus_digit_seq: "rmatch (Plus Digit) st = rmatch (Seq (Plus Digit) (Repeat 0 (Some 0) Digit)) st"
proof -
  have "rmatch (Repeat 0 (Some 0) Digit) = (\<lambda>st. [st])"
    by (rule ext) (simp add: greedy_zero_hi)
  then show ?thesis by (simp del: rmatch.simps(6))
qed

lemma QTY_RE_ALT: "QTY_RE = Group 1 QTY_ALT"
  by (simp add: QTY_RE_def QTY_ALT_def)

lemma alt_first:
  assumes "st' \<in> set (rmatch QTY_ALT st)"
  shows "rest st \<noteq> [] \<and> re_digit (hd (rest st)) \<and> pos st < pos st'"
proof -
  let ?A = "Seq (Repeat (Suc 0) (Some 3) Digit)
            (Seq (Star (Seq (Lit (ch CHR ''.'')) (Repeat 3 (Some 3) Digit)))
              (Seq (Lit (ch CHR '','')) (Plus Digit)))"
  let ?B = "Seq (Repeat (Suc 0) None Digit) (Seq (Lit (ch CHR '','')) (Plus Digit))"
  let ?C = "Seq (Repeat (Suc 0) None Digit) (Repeat 0 (Some 0) Digit)"
  have "rmatch QTY_ALT st = rmatch ?A st @ rmatch ?B st @ rmatch ?C st"
    unfolding QTY_ALT_def rmatch.simps(5) using plus_digit_seq[of st] by (simp only: One_nat_def)
  with assms consider "st' \<in> set (rmatch ?A st)" | "st' \<in> set (rmatch ?B st)" | "st' \<in> set (rmatch ?C st)"
    by (auto simp del: rmatch.simps)
  then show ?thesis
    by cases (rule rep_seq_first, assumption)+
qed

lemma qty_outcome:
  assumes "st' \<in> set (rmatch QTY_RE st)"
  shows "\<exists>w. caps st' 1 = Some w \<and> w \<noteq> [] \<and> re_digit (hd w)"
proof -
  from assms obtain x where x: "x \<in> set (rmatch QTY_ALT st)"
    "st' = x\<lparr>caps := (caps x)(1 \<mapsto> take (pos x - pos st) (rest st))\<rparr>"
    unfolding QTY_RE_ALT by auto
  from alt_first[OF x(1)] have "take (pos x - pos st) (rest st) \<noteq> []"
    "hd (take (pos x - pos st) (rest st)) = hd (rest st)" "re_digit (hd (rest st))"
    by (cases "rest st"; cases "pos x - pos st"; simp)+
  then show ?thesis using x(2) by simp
qed

lemma qty_nonempty:
  assumes "rest st \<noteq> []" "re_digit (hd (rest st))"
  shows "rmatch QTY_RE st \<noteq> []"
proof -
  have "0 < run re_digit (rest st)" using assms by (cases "rest st") auto
  then have "rmatch (Plus Digit) st \<noteq> []"
    unfolding rep_cls_list[OF cls_Digit] by (simp add: upto_hi_def Suc_le_eq)
  then show ?thesis unfolding QTY_RE_def by (simp del: rmatch.simps(6))
qed

lemma search_digit:
  "\<exists>c\<in>set s. re_digit c \<Longrightarrow>
   \<exists>j m w. search_from QTY_RE i s = Some (j, m) \<and> caps m 1 = Some w \<and> w \<noteq> [] \<and> re_digit (hd w)"
proof (induction s arbitrary: i)
  case Nil
  then show ?case by simp
next
  case (Cons c cs)
  let ?st = "\<lparr>pos = i, rest = c # cs, caps = Map.empty\<rparr>"
  show ?case
  proof (cases "rmatch QTY_RE ?st")
    case Nil
    then have "\<not> re_digit c" using qty_nonempty[of ?st] by auto
    then have "\<exists>c\<in>set cs. re_digit c" using Cons.prems by auto
    from Cons.IH[OF this, of "Suc i"] show ?thesis using Nil by simp
  next
    case (Cons m ms)
    then have "m \<in> set (rmatch QTY_RE ?st)" by simp
    from qty_outcome[OF this] show ?thesis using Cons by simp
  qed
qed

lemma search_no_digit:
  "\<not> (\<exists>c\<in>set s. re_digit c) \<Longrightarrow> search_from QTY_RE i s = None"
proof (induction s arbitrary: i)
  case Nil
  have "rmatch QTY_RE \<lparr>pos = i, rest = [], caps = Map.empty\<rparr> = []"
    using qty_outcome[of _ "\<lparr>pos = i, rest = [], caps = Map.empty\<rparr>"] alt_first[of _ "\<lparr>pos = i, rest = [], caps = Map.empty\<rparr>"]
    unfolding QTY_RE_ALT by (cases "rmatch QTY_ALT \<lparr>pos = i, rest = [], caps = Map.empty\<rparr>") auto
  then show ?case by simp
next
  case (Cons c cs)
  let ?st = "\<lparr>pos = i, rest = c # cs, caps = Map.empty\<rparr>"
  have "rmatch QTY_ALT ?st = []"
    using alt_first[of _ ?st] Cons.prems by (cases "rmatch QTY_ALT ?st") auto
  then have "rmatch QTY_RE ?st = []" unfolding QTY_RE_ALT by simp
  then show ?case using Cons by simp
qed

lemma map_ranges_above:
  "list_all (\<lambda>(lo, hi, step, t). n < t) rs \<Longrightarrow> map_ranges rs c = Some d \<Longrightarrow> n < d"
  by (induction rs) (auto split: if_splits)

lemma map_of_all:
  "list_all (\<lambda>(k, v). P v) kvs \<Longrightarrow> map_of kvs c = Some v \<Longrightarrow> P v"
  by (induction kvs) (auto split: if_splits)

lemma upper_ranges_above: "list_all (\<lambda>(lo, hi, step, t). 35 < t) upper_ranges"
  by (simp add: upper_ranges_def)

lemma upper_special_hd: "list_all (\<lambda>(k, v). v \<noteq> [] \<and> hd v \<noteq> 35) upper_special"
  by (simp add: upper_special_def)

lemma upper_char_hash: "upper_char c \<noteq> [] \<and> (hd (upper_char c) = 35 \<longrightarrow> c = 35)"
proof (cases "map_of upper_special c")
  case (Some v)
  from map_of_all[OF upper_special_hd Some] show ?thesis
    by (simp add: upper_char_def case_map_def Some)
next
  case None
  show ?thesis
  proof (cases "map_ranges upper_ranges c")
    case n: None
    then show ?thesis by (simp add: upper_char_def case_map_def None)
  next
    case (Some d)
    from map_ranges_above[OF upper_ranges_above Some] show ?thesis
      by (simp add: upper_char_def case_map_def None Some)
  qed
qed

lemma hash_not_digit: "\<not> re_digit 35"
  by (simp add: re_digit_def digit_zeros_def)

lemma upper_not_ND: "w \<noteq> [] \<Longrightarrow> re_digit (hd w) \<Longrightarrow> upper w \<noteq> u ''#N/D''"
proof (cases w)
  case Nil
  then show "w \<noteq> [] \<Longrightarrow> upper w \<noteq> u ''#N/D''" by simp
next
  case (Cons c cs)
  assume "re_digit (hd w)"
  then have "c \<noteq> 35" using Cons hash_not_digit by auto
  then have "hd (upper_char c) \<noteq> 35" "upper_char c \<noteq> []" using upper_char_hash[of c] by auto
  then have "hd (upper w) \<noteq> 35" by (simp add: upper_def Cons)
  then show "upper w \<noteq> u ''#N/D''" by (auto simp: u_def)
qed

lemma set_replace: "old \<noteq> [] \<Longrightarrow> set (replace old new s) \<subseteq> set s \<union> set new"
proof (induction old new s rule: replace.induct)
  case (1 old new)
  then show ?case by simp
next
  case (2 old new c cs)
  show ?case
  proof (cases "take (length old) (c # cs) = old")
    case True
    have "set (drop (length old) (c # cs)) \<subseteq> set (c # cs)" by (rule set_drop_subset)
    then show ?thesis using 2 True by auto
  next
    case False
    then show ?thesis using 2 by auto
  qed
qed

lemma set_strip: "set (strip s) \<subseteq> set s"
  unfolding strip_def by (auto dest!: set_dropWhileD)

lemma space_not_digit: "\<not> re_digit 32"
  by (simp add: re_digit_def digit_zeros_def)

lemma digit_norm: "c \<in> set (norm s) \<Longrightarrow> re_digit c \<Longrightarrow> c \<in> set s"
  using set_strip[of "replace [160] (u '' '') s"] set_replace[of "[160]" "(u '' '')" s]
  by (auto simp: norm_def u_def space_not_digit)

lemma set_join_hd: "set x \<subseteq> set (join sep (x # xs))"
  by (cases xs) auto

lemma code_ok_digit: "code_ok s \<Longrightarrow> \<exists>c\<in>set s. re_digit c"
  unfolding code_ok_def by (cases s) (auto split: if_splits)

lemma code_match_digit:
  assumes "re_match CODE_RE s \<noteq> None"
  shows "\<exists>c\<in>set s. re_digit c"
proof -
  from assms have "code_ok (dropWhile isspace s)" by (rule code_re_iff[THEN iffD1])
  then obtain c where "c \<in> set (dropWhile isspace s)" "re_digit c" using code_ok_digit by blast
  then show ?thesis by (auto dest: set_dropWhileD)
qed

lemma pick_quantity_ok:
  assumes "cells \<noteq> []" "re_match CODE_RE (norm (cells ! 0)) \<noteq> None"
  shows "pick_quantity_from_row cells \<noteq> [] \<and> upper (pick_quantity_from_row cells) \<noteq> (u ''#N/D'')"
proof -
  obtain c where c: "c \<in> set (norm (cells ! 0))" "re_digit c"
    using code_match_digit[OF assms(2)] by blast
  then have "c \<in> set (cells ! 0)" by (rule digit_norm)
  moreover obtain x xs where xs: "cells = x # xs" using assms(1) by (cases cells) auto
  ultimately have "c \<in> set (join (u '' '') cells)" using set_join_hd[of x "(u '' '')" xs] by auto
  with c(2) have "\<exists>c\<in>set (join (u '' '') cells). re_digit c" by blast
  from search_digit[OF this, of 0] obtain j m w where
    m: "re_search QTY_RE (join (u '' '') cells) = Some m" "caps m 1 = Some w" "w \<noteq> []" "re_digit (hd w)"
    unfolding re_search_def by auto
  then have g: "group m 1 = w" by (simp add: group_def)
  show ?thesis
    unfolding pick_quantity_from_row_def Let_def using m g upper_not_ND[OF m(3,4)] by auto
qed

lemma extract_row_cases:
  "(\<exists>c q. extract_row t_i r_i row (results, logs) = (results @ [(c, q)], logs)) \<or>
   (\<exists>reason v. extract_row t_i r_i row (results, logs) = (results, logs @ [(t_i, r_i, reason, v)])
       \<and> reason \<in> skip_reasons)"
proof (cases "map norm row = []")
  case True
  then show ?thesis by (simp add: extract_row_def skip_reasons_def)
next
  case ne: False
  let ?cells = "map norm row"
  let ?code = "norm (?cells ! 0)"
  show ?thesis
  proof (cases "?code = [] \<or> upper ?code = (u ''#N/D'')")
    case True
    then show ?thesis using ne by (auto simp: extract_row_def skip_reasons_def Let_def)
  next
    case c1: False
    show ?thesis
    proof (cases "re_match CODE_RE ?code = None")
      case True
      then show ?thesis using ne c1 by (auto simp: extract_row_def skip_reasons_def Let_def)
    next
      case False
      from pick_quantity_ok[OF ne False]
      show ?thesis using ne c1 False by (auto simp: extract_row_def Let_def)
    qed
  qed
qed

lemma extract_rows_acc:
  "\<exists>acc sk. extract_rows t_i r_i rows (results, logs) = (results @ acc, logs @ sk)
     \<and> length acc + length sk = length rows
     \<and> (\<forall>e\<in>set sk. fst e = t_i \<and> fst (snd (snd e)) \<in> skip_reasons)"
proof (induction rows arbitrary: r_i results logs)
  case Nil
  then show ?case by simp
next
  case (Cons row rows)
  from extract_row_cases[of t_i r_i row results logs] show ?case
  proof (elim disjE exE conjE)
    fix c q assume e: "extract_row t_i r_i row (results, logs) = (results @ [(c, q)], logs)"
    from Cons.IH[of "Suc r_i" "results @ [(c, q)]" logs] obtain acc sk where
      "extract_rows t_i (Suc r_i) rows (results @ [(c, q)], logs) = ((results @ [(c, q)]) @ acc, logs @ sk)"
      "length acc + length sk = length rows"
      "\<forall>e\<in>set sk. fst e = t_i \<and> fst (snd (snd e)) \<in> skip_reasons" by blast
    then show ?thesis using e
      by (intro exI[of _ "(c, q) # acc"] exI[of _ sk]) simp
  next
    fix reason v assume e: "extract_row t_i r_i row (results, logs) = (results, logs @ [(t_i, r_i, reason, v)])"
      and r: "reason \<in> skip_reasons"
    from Cons.IH[of "Suc r_i" results "logs @ [(t_i, r_i, reason, v)]"] obtain acc sk where
      "extract_rows t_i (Suc r_i) rows (results, logs @ [(t_i, r_i, reason, v)]) = (results @ acc, (logs @ [(t_i, r_i, reason, v)]) @ sk)"
      "length acc + length sk = length rows"
      "\<forall>e\<in>set sk. fst e = t_i \<and> fst (snd (snd e)) \<in> skip_reasons" by blast
    then show ?thesis using e r
      by (intro exI[of _ acc] exI[of _ "(t_i, r_i, reason, v) # sk"]) simp
  qed
qed

lemma extract_tables_acc:
  "\<exists>acc sk. extract_tables t_i tables ((results, logs), n) =
       ((results @ acc, logs @ sk), n + length (filter is_itens_table tables))
     \<and> length acc + length sk = data_rows tables
     \<and> (\<forall>e\<in>set sk. fst (snd (snd e)) \<in> skip_reasons)"
proof (induction tables arbitrary: t_i results logs n)
  case Nil
  then show ?case by (simp add: data_rows_def)
next
  case (Cons t ts)
  show ?case
  proof (cases "is_itens_table t")
    case False
    from Cons.IH[of "Suc t_i" results logs n] show ?thesis using False by (simp add: data_rows_def)
  next
    case True
    obtain a1 s1 where 1: "extract_rows t_i 2 (tl t) (results, logs) = (results @ a1, logs @ s1)"
      "length a1 + length s1 = length (tl t)"
      "\<forall>e\<in>set s1. fst e = t_i \<and> fst (snd (snd e)) \<in> skip_reasons"
      using extract_rows_acc by blast
    from Cons.IH[of "Suc t_i" "results @ a1" "logs @ s1" "n + 1"] obtain a2 s2 where
      2: "extract_tables (Suc t_i) ts ((results @ a1, logs @ s1), n + 1) =
           (((results @ a1) @ a2, (logs @ s1) @ s2), n + 1 + length (filter is_itens_table ts))"
      "length a2 + length s2 = data_rows ts"
      "\<forall>e\<in>set s2. fst (snd (snd e)) \<in> skip_reasons" by blast
    show ?thesis using True 1 2
      by (intro exI[of _ "a1 @ a2"] exI[of _ "s1 @ s2"]) (auto simp: data_rows_def)
  qed
qed
text \<open>The definitions that evaluate the program on a given input.\<close>

lemmas code_eval = isspace_def space_points_def re_digit_def digit_zeros_def newline_def strip_def
  norm_def re_match_def re_search_def CODE_RE_def QTY_RE_def eat_def group_def

lemmas lower_eval = lower_def lower_char_def case_map_def lower_special_def lower_ranges_def

lemmas upper_eval = upper_def upper_char_def case_map_def upper_special_def upper_ranges_def

lemmas extract_eval = extract_code_qty_def extract_row_def pick_quantity_from_row_def
  is_itens_table_def Let_def

section \<open>The claims\<close>

text \<open>
  C2. For every string \<open>c\<close>, \<open>CODE_RE.match(c)\<close> succeeds exactly when \<open>c\<close>, without its
  leading and trailing whitespace, is one or more digits, optionally followed by a dot and
  one or more digits. A digit is what \<open>\d\<close> matches in the \<open>str\<close> pattern of the program, any
  Unicode decimal digit: the code of the Arabic-Indic digits U+0661 U+0667 is accepted as
  \<open>17\<close> is. The empty string, an alphabetic code, the multi-dot code \<open>1.2.3\<close> and a negative
  number are rejected.
\<close>

theorem code_validator_grammar:
  "((re_match CODE_RE c \<noteq> None) =
      (\<exists>a. a \<noteq> [] \<and> list_all re_digit a \<and>
         (strip c = a \<or> (\<exists>b. b \<noteq> [] \<and> list_all re_digit b \<and> strip c = a @ u ''.'' @ b))))
   \<and> re_match CODE_RE [] = None
   \<and> re_match CODE_RE (u ''abc'') = None
   \<and> re_match CODE_RE (u ''1.2.3'') = None
   \<and> re_match CODE_RE (u ''-1'') = None
   \<and> re_match CODE_RE (u ''17'') \<noteq> None
   \<and> re_match CODE_RE [1633, 1639] \<noteq> None"
proof (intro conjI)
  show "(re_match CODE_RE c \<noteq> None) =
     (\<exists>a. a \<noteq> [] \<and> list_all re_digit a \<and>
        (strip c = a \<or> (\<exists>b. b \<noteq> [] \<and> list_all re_digit b \<and> strip c = a @ u ''.'' @ b)))"
    by (rule code_grammar)
  show "re_match CODE_RE [] = None" by (simp add: code_eval)
  show "re_match CODE_RE (u ''abc'') = None" by (simp add: code_eval)
  show "re_match CODE_RE (u ''1.2.3'') = None" by (simp add: code_eval)
  show "re_match CODE_RE (u ''-1'') = None" by (simp add: code_eval)
  show "re_match CODE_RE (u ''17'') \<noteq> None" by (simp add: code_eval)
  show "re_match CODE_RE [1633, 1639] \<noteq> None" by (simp add: code_eval)
qed

theorem code_validator_grammar_witness:
  "re_match CODE_RE (u '' 17.4 '') \<noteq> None \<and> strip (u '' 17.4 '') = u ''17'' @ u ''.'' @ u ''4''"
proof -
  have s: "strip (u '' 17.4 '') = u ''17'' @ u ''.'' @ u ''4''" by (simp add: code_eval)
  have d: "list_all re_digit (u ''17'')" "list_all re_digit (u ''4'')" by (simp_all add: code_eval)
  have "\<exists>a. a \<noteq> [] \<and> list_all re_digit a \<and>
        (strip (u '' 17.4 '') = a \<or>
         (\<exists>b. b \<noteq> [] \<and> list_all re_digit b \<and> strip (u '' 17.4 '') = a @ u ''.'' @ b))"
    using s d by (intro exI[of _ "u ''17''"] conjI disjI2 exI[of _ "u ''4''"]) simp_all
  then show ?thesis using code_validator_grammar[of "u '' 17.4 ''"] s by blast
qed

text \<open>
  C6. \<open>is_itens_table\<close> is false for a table with no rows; for a table with a first row it
  is true exactly when some cell of that row, normalised and lower-cased, is \<open>itens\<close>; the
  rows after the first do not matter.
\<close>

theorem is_itens_table_header:
  "\<not> is_itens_table []
   \<and> is_itens_table (r # rs) = (\<exists>c\<in>set r. lower (norm c) = u ''itens'')
   \<and> is_itens_table (r # rs) = is_itens_table (r # rs')"
  by (simp add: is_itens_table_def list_ex_iff)

theorem is_itens_table_header_witness:
  "is_itens_table [[u ''Qtd'', u '' ITENS ''], [u ''x'']] \<and> \<not> is_itens_table [[u ''Item'', u ''Qtd''], [u ''Itens'']]"
proof -
  have 1: "\<exists>c\<in>set [u ''Qtd'', u '' ITENS '']. lower (norm c) = u ''itens''"
    by (simp add: code_eval lower_eval)
  have 2: "\<not> (\<exists>c\<in>set [u ''Item'', u ''Qtd'']. lower (norm c) = u ''itens'')"
    by (simp add: code_eval lower_eval)
  show ?thesis
    using is_itens_table_header[of "[u ''Qtd'', u '' ITENS '']" "[[u ''x'']]"]
      is_itens_table_header[of "[u ''Item'', u ''Qtd'']" "[[u ''Itens'']]"] 1 2 by blast
qed

text \<open>
  C5. The inner loop over the data rows of a table (all rows but the first) adds, for
  every row, either one accepted row or one skip record carrying the table's index: the
  accepted rows are at most the row count minus 1, and accepted rows plus skip records
  are exactly the data rows. Over a whole document, \<open>rows_extracted + rows_ignored\<close> is
  the number of data rows of the target tables.
\<close>

theorem row_extractor_counts:
  "(\<exists>acc sk. extract_rows t_i 2 (tl table) (results, logs) = (results @ acc, logs @ sk)
      \<and> length acc \<le> length table - 1
      \<and> length acc + length sk = length table - 1
      \<and> (\<forall>e\<in>set sk. fst e = t_i))
   \<and> rows_extracted (snd (extract_code_qty doc)) + rows_ignored (snd (extract_code_qty doc))
       = sum_list (map (\<lambda>t. length t - 1) (filter is_itens_table doc))"
proof (intro conjI)
  obtain acc sk where a: "extract_rows t_i 2 (tl table) (results, logs) = (results @ acc, logs @ sk)"
    "length acc + length sk = length (tl table)"
    "\<forall>e\<in>set sk. fst e = t_i \<and> fst (snd (snd e)) \<in> skip_reasons"
    using extract_rows_acc by blast
  then show "\<exists>acc sk. extract_rows t_i 2 (tl table) (results, logs) = (results @ acc, logs @ sk)
      \<and> length acc \<le> length table - 1
      \<and> length acc + length sk = length table - 1
      \<and> (\<forall>e\<in>set sk. fst e = t_i)"
    by (intro exI[of _ acc] exI[of _ sk]) auto
  obtain acc sk where "extract_tables 1 doc (([], []), 0) =
       (([] @ acc, [] @ sk), 0 + length (filter is_itens_table doc))"
     "length acc + length sk = data_rows doc"
    using extract_tables_acc by blast
  then show "rows_extracted (snd (extract_code_qty doc)) + rows_ignored (snd (extract_code_qty doc))
     = sum_list (map (\<lambda>t. length t - 1) (filter is_itens_table doc))"
    by (simp add: extract_code_qty_def data_rows_def)
qed

theorem row_extractor_counts_witness:
  "extract_rows 1 2 (tl [[u ''Itens''], [u ''17.1'', u '''', u ''5,00''], [u ''x''], []]) ([], [])
     = ([(u ''17.1'', u ''5,00'')], [(1, 3, u ''skip_code_invalid'', u ''x''), (1, 4, u ''skip_empty_row'', [])])
   \<and> (\<exists>acc sk. extract_rows 1 2 (tl [[u ''Itens''], [u ''17.1'', u '''', u ''5,00''], [u ''x''], []]) ([], [])
         = ([] @ acc, [] @ sk) \<and> length acc + length sk = 3 \<and> (\<forall>e\<in>set sk. fst e = 1))"
proof -
  have "extract_rows 1 2 (tl [[u ''Itens''], [u ''17.1'', u '''', u ''5,00''], [u ''x''], []]) ([], [])
     = ([(u ''17.1'', u ''5,00'')], [(1, 3, u ''skip_code_invalid'', u ''x''), (1, 4, u ''skip_empty_row'', [])])"
    by (simp add: code_eval upper_eval extract_eval)
  then show ?thesis
    using row_extractor_counts[of 1 "[[u ''Itens''], [u ''17.1'', u '''', u ''5,00''], [u ''x''], []]" "[]" "[]"]
    by simp
qed

text \<open>
  C9. When the row is not empty and its first cell, normalised, matches \<open>CODE_RE\<close>,
  \<open>pick_quantity_from_row\<close> returns a ustr that is neither empty nor \<open>#N/D\<close> in any
  case of letters; so no skip record of \<open>extract_code_qty\<close> has the reason
  \<open>skip_qty_empty_or_ND\<close>.
\<close>

theorem qty_skip_unreachable:
  "(cells \<noteq> [] \<and> re_match CODE_RE (norm (cells ! 0)) \<noteq> None \<longrightarrow>
      pick_quantity_from_row cells \<noteq> [] \<and> upper (pick_quantity_from_row cells) \<noteq> u ''#N/D'')
   \<and> (\<forall>e\<in>set (ignored_details (snd (extract_code_qty doc))).
        fst (snd (snd e)) \<noteq> u ''skip_qty_empty_or_ND'')"
proof (intro conjI)
  show "cells \<noteq> [] \<and> re_match CODE_RE (norm (cells ! 0)) \<noteq> None \<longrightarrow>
     pick_quantity_from_row cells \<noteq> [] \<and> upper (pick_quantity_from_row cells) \<noteq> u ''#N/D''"
    using pick_quantity_ok by blast
  obtain acc sk where "extract_tables 1 doc (([], []), 0) =
       (([] @ acc, [] @ sk), 0 + length (filter is_itens_table doc))"
     "\<forall>e\<in>set sk. fst (snd (snd e)) \<in> skip_reasons"
    using extract_tables_acc by blast
  then show "\<forall>e\<in>set (ignored_details (snd (extract_code_qty doc))).
     fst (snd (snd e)) \<noteq> u ''skip_qty_empty_or_ND''"
    by (auto simp: extract_code_qty_def skip_reasons_def)
qed

theorem qty_skip_unreachable_witness:
  "[u ''17.1'', u ''#N/D''] \<noteq> [] \<and> re_match CODE_RE (norm ([u ''17.1'', u ''#N/D''] ! 0)) \<noteq> None
   \<and> pick_quantity_from_row [u ''17.1'', u ''#N/D''] = u ''17''
   \<and> upper (pick_quantity_from_row [u ''17.1'', u ''#N/D'']) \<noteq> u ''#N/D''
   \<and> ignored_details (snd (extract_code_qty [[[u ''Itens''], [u ''17.1'', u ''#N/D''], [u ''#n/d'']]]))
       = [(1, 3, u ''skip_code_empty_or_ND'', [])]"
proof -
  have h: "[u ''17.1'', u ''#N/D''] \<noteq> [] \<and> re_match CODE_RE (norm ([u ''17.1'', u ''#N/D''] ! 0)) \<noteq> None"
    by (simp add: code_eval upper_eval extract_eval)
  have p: "pick_quantity_from_row [u ''17.1'', u ''#N/D''] = u ''17''"
    by (simp add: code_eval upper_eval extract_eval)
  have d: "ignored_details (snd (extract_code_qty [[[u ''Itens''], [u ''17.1'', u ''#N/D''], [u ''#n/d'']]]))
       = [(1, 3, u ''skip_code_empty_or_ND'', [])]"
    by (simp add: code_eval lower_eval upper_eval extract_eval)
  show ?thesis
    using qty_skip_unreachable[of "[u ''17.1'', u ''#N/D'']" "[[[u ''Itens''], [u ''17.1'', u ''#N/D''], [u ''#n/d'']]]"] h p d
    by simp
qed

end
